theory Spec2Isabelle
  imports Complex_Main "HOL-Library.Finite_Map" "HOL-Library.AList"
begin

section \<open>JavaScript values\<close>

text \<open>
  The values the handlers see: what \<open>JSON.parse\<close> produces for a request body, plus
  \<open>undefined\<close> (an absent property) and \<open>Date\<close> objects (milliseconds since the epoch).
  An object is a finite map from property names to values; property order is not
  observable by any code modelled here.
\<close>

datatype json =
    JUndefined
  | JNull
  | JBool bool
  | JNum real
  | JStr string
  | JDate int
  | JArr "json list"
  | JObj "(string, json) fmap"

text \<open>JavaScript's \<open>ToBoolean\<close>: the falsy values are undefined, null, false, 0 and the empty string.\<close>

fun truthy :: "json \<Rightarrow> bool" where
  "truthy JUndefined = False"
| "truthy JNull = False"
| "truthy (JBool b) = b"
| "truthy (JNum x) = (x \<noteq> 0)"
| "truthy (JStr s) = (s \<noteq> [])"
| "truthy (JDate t) = True"
| "truthy (JArr xs) = True"
| "truthy (JObj m) = True"

text \<open>\<open>typeof v === 'object'\<close>: null, arrays, dates and plain objects.\<close>

fun typeofObject :: "json \<Rightarrow> bool" where
  "typeofObject JNull = True"
| "typeofObject (JDate t) = True"
| "typeofObject (JArr xs) = True"
| "typeofObject (JObj m) = True"
| "typeofObject v = False"

fun typeofBoolean :: "json \<Rightarrow> bool" where
  "typeofBoolean (JBool b) = True"
| "typeofBoolean v = False"

fun isUndefined :: "json \<Rightarrow> bool" where
  "isUndefined JUndefined = True"
| "isUndefined v = False"

fun isArray :: "json \<Rightarrow> bool" where
  "isArray (JArr xs) = True"
| "isArray v = False"

definition digitChar :: "nat \<Rightarrow> char" where
  "digitChar d = char_of (48 + d)"

fun decimal :: "nat \<Rightarrow> string" where
  "decimal n = (if n < 10 then [digitChar n] else decimal (n div 10) @ [digitChar (n mod 10)])"

declare decimal.simps [simp del]

text \<open>
  The own enumerable properties of a value, as \<open>Object.keys\<close> and the spread
  \<open>{...v}\<close> see them: an object's properties, an array's elements under their indices,
  a string's characters under their indices, nothing for the other values.
\<close>

fun ownProps :: "json \<Rightarrow> (string, json) fmap" where
  "ownProps (JObj m) = m"
| "ownProps (JArr xs) = fmap_of_list (zip (map decimal [0..<length xs]) xs)"
| "ownProps (JStr s) = fmap_of_list (zip (map decimal [0..<length s]) (map (\<lambda>c. JStr [c]) s))"
| "ownProps v = fmempty"

text \<open>
  Reading a property \<open>v.k\<close> (or \<open>v[k]\<close>) for a name that is not inherited from a prototype,
  which holds for every name the code reads: a missing property is \<open>undefined\<close>.
\<close>

definition getProp :: "json \<Rightarrow> string \<Rightarrow> json" where
  "getProp v k = (case fmlookup (ownProps v) k of Some x \<Rightarrow> x | None \<Rightarrow> JUndefined)"

text \<open>The object spread \<open>{...a, ...b}\<close>: one level deep, the properties of \<open>b\<close> win.\<close>

definition spread :: "(string, json) fmap \<Rightarrow> json \<Rightarrow> (string, json) fmap" where
  "spread a b = a ++\<^sub>f ownProps b"

section \<open>The session store (server)\<close>

record UserSession =
  sessionId :: string
  createdAt :: int
  lastActivity :: int
  uiState :: "(string, json) fmap"
  workspaceData :: "(string, json) fmap"

definition defaultUiState :: "(string, json) fmap" where
  "defaultUiState = fmap_of_list [(''activeTab'', JStr ''grid''), (''excelToggle'', JBool False)]"

definition defaultWorkspaceData :: "(string, json) fmap" where
  "defaultWorkspaceData = fmap_of_list
     [(''gridData'', JArr []), (''tableData'', JArr []), (''pqQueryData'', JArr []), (''uploads'', JArr [])]"

text \<open>
  The server's state: the \<open>sessions\<close> Map as an association list in insertion order, and the
  system clock. Each \<open>new Date()\<close> reads \<open>clock\<close> at the current tick and advances the tick,
  so two reads in one handler may differ.
\<close>

record server =
  sessions :: "(string \<times> UserSession) list"
  clock :: "nat \<Rightarrow> int"
  ticks :: nat

definition newDate :: "server \<Rightarrow> int \<times> server" where
  "newDate sv = (clock sv (ticks sv), sv\<lparr>ticks := Suc (ticks sv)\<rparr>)"

text \<open>\<open>sessions.get\<close>, \<open>sessions.set\<close>, \<open>sessions.delete\<close>.\<close>

definition sessionsGet :: "server \<Rightarrow> string \<Rightarrow> UserSession option" where
  "sessionsGet sv sid = map_of (sessions sv) sid"

definition sessionsSet :: "string \<Rightarrow> UserSession \<Rightarrow> server \<Rightarrow> server" where
  "sessionsSet sid s sv = sv\<lparr>sessions := AList.update sid s (sessions sv)\<rparr>"

definition sessionsDelete :: "string \<Rightarrow> server \<Rightarrow> server" where
  "sessionsDelete sid sv = sv\<lparr>sessions := AList.delete sid (sessions sv)\<rparr>"

text \<open>
  A handler holds a reference to the session object stored under the request's id and
  mutates it in place; \<open>mutate\<close> applies the mutation to the stored object.
\<close>

definition mutate :: "string \<Rightarrow> (UserSession \<Rightarrow> UserSession) \<Rightarrow> server \<Rightarrow> server" where
  "mutate sid f sv = sv\<lparr>sessions := AList.map_entry sid f (sessions sv)\<rparr>"

subsection \<open>The methods of UserSession\<close>

definition newUserSession :: "string \<Rightarrow> server \<Rightarrow> UserSession \<times> server" where
  "newUserSession uuid sv =
     (let (t1, sv1) = newDate sv;
          (t2, sv2) = newDate sv1
      in (\<lparr>sessionId = uuid, createdAt = t1, lastActivity = t2,
           uiState = defaultUiState, workspaceData = defaultWorkspaceData\<rparr>, sv2))"

definition updateLastActivity :: "string \<Rightarrow> server \<Rightarrow> server" where
  "updateLastActivity sid sv =
     (let (t, sv1) = newDate sv in mutate sid (\<lambda>s. s\<lparr>lastActivity := t\<rparr>) sv1)"

definition updateUiState :: "string \<Rightarrow> json \<Rightarrow> server \<Rightarrow> server" where
  "updateUiState sid newUiState sv =
     updateLastActivity sid (mutate sid (\<lambda>s. s\<lparr>uiState := spread (uiState s) newUiState\<rparr>) sv)"

definition updateWorkspaceData :: "string \<Rightarrow> json \<Rightarrow> server \<Rightarrow> server" where
  "updateWorkspaceData sid newWorkspaceData sv =
     updateLastActivity sid
       (mutate sid (\<lambda>s. s\<lparr>workspaceData := spread (workspaceData s) newWorkspaceData\<rparr>) sv)"

definition resetSession :: "string \<Rightarrow> server \<Rightarrow> server" where
  "resetSession sid sv =
     updateLastActivity sid
       (mutate sid (\<lambda>s. s\<lparr>uiState := defaultUiState, workspaceData := defaultWorkspaceData\<rparr>) sv)"

subsection \<open>Input validation helpers\<close>

definition isHex :: "char \<Rightarrow> bool" where
  "isHex c = (c \<in> set ''0123456789abcdefABCDEF'')"

fun hexRun :: "nat \<Rightarrow> string \<Rightarrow> string option" where
  "hexRun 0 s = Some s"
| "hexRun (Suc n) [] = None"
| "hexRun (Suc n) (c # cs) = (if isHex c then hexRun n cs else None)"

fun oneOf :: "string \<Rightarrow> string \<Rightarrow> string option" where
  "oneOf allowed [] = None"
| "oneOf allowed (c # cs) = (if c \<in> set allowed then Some cs else None)"

text \<open>
  The regular expression
  \<open>/^[0-9a-f]{8}-[0-9a-f]{4}-4[0-9a-f]{3}-[89ab][0-9a-f]{3}-[0-9a-f]{12}$/i\<close>
  matched against the whole string, group by group.
\<close>

definition validateSessionId :: "string \<Rightarrow> bool" where
  "validateSessionId sid =
     (Option.bind (Option.bind (Option.bind (Option.bind (Option.bind (Option.bind
      (Option.bind (Option.bind (Option.bind (Option.bind (hexRun 8 sid)
        (oneOf ''-'')) (hexRun 4)) (oneOf ''-'')) (oneOf ''4'')) (hexRun 3)) (oneOf ''-''))
        (oneOf ''89abAB'')) (hexRun 3)) (oneOf ''-'')) (hexRun 12) = Some [])"

definition tabNames :: "string list" where
  "tabNames = [''grid'', ''table'', ''pq-query'']"

text \<open>\<open>['grid', 'table', 'pq-query'].includes(v)\<close>: only a string can be equal to a member.\<close>

fun includesTab :: "json \<Rightarrow> bool" where
  "includesTab (JStr s) = (s \<in> set tabNames)"
| "includesTab v = False"

definition validateUiState :: "json \<Rightarrow> bool" where
  "validateUiState u =
     (if \<not> truthy u \<or> \<not> typeofObject u then False
      else if truthy (getProp u ''activeTab'') \<and> \<not> includesTab (getProp u ''activeTab'') then False
      else if \<not> isUndefined (getProp u ''excelToggle'') \<and> \<not> typeofBoolean (getProp u ''excelToggle'')
        then False
      else True)"

definition allowedKeys :: "string list" where
  "allowedKeys = [''gridData'', ''tableData'', ''pqQueryData'', ''uploads'']"

definition validateWorkspaceData :: "json \<Rightarrow> bool" where
  "validateWorkspaceData w =
     (if \<not> truthy w \<or> \<not> typeofObject w then False
      else fBall (fmdom (ownProps w)) (\<lambda>key. key \<in> set allowedKeys) \<and>
           fBall (fmdom (ownProps w)) (\<lambda>key. isArray (getProp w key)))"

subsection \<open>Responses\<close>

datatype payload =
    NoPayload
  | SessionJSON UserSession
  | UploadInfoJSON json
  | HealthJSON int nat

record response =
  status :: nat
  success :: bool
  message :: string
  payload :: payload

definition failure :: "nat \<Rightarrow> string \<Rightarrow> response" where
  "failure code msg = \<lparr>status = code, success = False, message = msg, payload = NoPayload\<rparr>"

definition ok :: "nat \<Rightarrow> string \<Rightarrow> payload \<Rightarrow> response" where
  "ok code msg p = \<lparr>status = code, success = True, message = msg, payload = p\<rparr>"

text \<open>\<open>session.toJSON()\<close> of the object stored under \<open>sid\<close>, taken when the response is sent.\<close>

definition toJSON :: "server \<Rightarrow> string \<Rightarrow> payload" where
  "toJSON sv sid = (case sessionsGet sv sid of Some s \<Rightarrow> SessionJSON s | None \<Rightarrow> NoPayload)"

subsection \<open>Session cleanup\<close>

definition maxAge :: int where
  "maxAge = 24 * 60 * 60 * 1000"

text \<open>
  \<open>cleanupSessions\<close>: one clock read, then a loop over the entries of the Map that deletes
  the expired ones (deleting during the iteration of a Map is safe in JavaScript).
\<close>

fun cleanupLoop :: "int \<Rightarrow> (string \<times> UserSession) list \<Rightarrow> server \<Rightarrow> server" where
  "cleanupLoop now [] sv = sv"
| "cleanupLoop now ((sid, s) # rest) sv =
     cleanupLoop now rest (if now - lastActivity s > maxAge then sessionsDelete sid sv else sv)"

definition cleanupSessions :: "server \<Rightarrow> server" where
  "cleanupSessions sv = (let (now, sv1) = newDate sv in cleanupLoop now (sessions sv1) sv1)"

subsection \<open>API routes\<close>

text \<open>\<open>POST /api/session/init\<close>; \<open>uuid\<close> is the value \<open>uuidv4()\<close> returns.\<close>

definition initHandler :: "string \<Rightarrow> server \<Rightarrow> response \<times> server" where
  "initHandler uuid sv =
     (let (newSession, sv1) = newUserSession uuid sv;
          sv2 = sessionsSet (sessionId newSession) newSession sv1
      in (ok 201 ''Session created successfully'' (SessionJSON newSession), sv2))"

text \<open>\<open>GET /api/session/:sessionId\<close>\<close>

definition getHandler :: "string \<Rightarrow> server \<Rightarrow> response \<times> server" where
  "getHandler sid sv =
     (if \<not> validateSessionId sid then (failure 400 ''Invalid session ID format'', sv)
      else case sessionsGet sv sid of
        None \<Rightarrow> (failure 404 ''Session not found'', sv)
      | Some s \<Rightarrow>
          (let sv1 = updateLastActivity sid sv
           in (ok 200 [] (toJSON sv1 sid), sv1)))"

text \<open>
  \<open>PUT /api/session/:sessionId/state\<close>; \<open>body\<close> is \<open>req.body\<close>, which \<open>express.json\<close> sets
  to the parsed object or array, or to \<open>{}\<close> when the request has no JSON body, so that
  reading \<open>uiState\<close> and \<open>workspaceData\<close> from it does not throw.
\<close>

definition putHandler :: "string \<Rightarrow> json \<Rightarrow> server \<Rightarrow> response \<times> server" where
  "putHandler sid body sv =
     (let ui = getProp body ''uiState''; wd = getProp body ''workspaceData'' in
      if \<not> validateSessionId sid then (failure 400 ''Invalid session ID format'', sv)
      else case sessionsGet sv sid of
        None \<Rightarrow> (failure 404 ''Session not found'', sv)
      | Some s \<Rightarrow>
          if \<not> isUndefined ui \<and> \<not> validateUiState ui then (failure 400 ''Invalid UI state data'', sv)
          else
            (let sv1 = (if \<not> isUndefined ui then updateUiState sid ui sv else sv) in
             if \<not> isUndefined wd \<and> \<not> validateWorkspaceData wd
               then (failure 400 ''Invalid workspace data'', sv1)
             else
               (let sv2 = (if \<not> isUndefined wd then updateWorkspaceData sid wd sv1 else sv1)
                in (ok 200 ''Session state updated successfully'' (toJSON sv2 sid), sv2))))"

text \<open>\<open>DELETE /api/session/:sessionId/reset\<close>\<close>

definition resetHandler :: "string \<Rightarrow> server \<Rightarrow> response \<times> server" where
  "resetHandler sid sv =
     (if \<not> validateSessionId sid then (failure 400 ''Invalid session ID format'', sv)
      else case sessionsGet sv sid of
        None \<Rightarrow> (failure 404 ''Session not found'', sv)
      | Some s \<Rightarrow>
          (let sv1 = resetSession sid sv
           in (ok 200 ''Session reset successfully'' (toJSON sv1 sid), sv1)))"

subsection \<open>File upload\<close>

text \<open>
  The file part of an incoming multipart request, as the multer library presents it;
  \<open>bufferBase64\<close> is \<open>buffer.toString('base64')\<close>.
\<close>

record filePart =
  fieldname :: string
  originalname :: string
  mimetype :: string
  size :: nat
  bufferBase64 :: string

definition fileSizeLimit :: nat where
  "fileSizeLimit = 10 * 1024 * 1024"

definition allowedTypes :: "string list" where
  "allowedTypes = [''text/csv'', ''application/vnd.ms-excel'',
     ''application/vnd.openxmlformats-officedocument.spreadsheetml.sheet'']"

text \<open>The errors that reach the error handling middleware.\<close>

datatype routeError =
    MulterError string
  | PlainError string

text \<open>The \<open>fileFilter\<close> callback of the multer configuration.\<close>

definition fileFilter :: "filePart \<Rightarrow> routeError option" where
  "fileFilter file =
     (if mimetype file \<in> set allowedTypes then None
      else Some (PlainError ''Invalid file type. Only CSV and Excel files are allowed.''))"

text \<open>
  \<open>upload.single('file')\<close> with the configuration above. The contract of the library:
  a file under another field name is refused with \<open>LIMIT_UNEXPECTED_FILE\<close>; then the
  \<open>fileFilter\<close> decides, and its error is passed on as it is; then the content is read,
  and a file longer than \<open>limits.fileSize\<close> is refused with \<open>LIMIT_FILE_SIZE\<close>. Otherwise
  the handler runs with \<open>req.file\<close> set (or undefined when the request has no file).
\<close>

definition uploadSingle :: "filePart option \<Rightarrow> routeError + filePart option" where
  "uploadSingle part =
     (case part of
        None \<Rightarrow> Inr None
      | Some file \<Rightarrow>
          if fieldname file \<noteq> ''file'' then Inl (MulterError ''LIMIT_UNEXPECTED_FILE'')
          else case fileFilter file of
            Some err \<Rightarrow> Inl err
          | None \<Rightarrow>
              if size file > fileSizeLimit then Inl (MulterError ''LIMIT_FILE_SIZE'')
              else Inr (Some file))"

text \<open>The error handling middleware.\<close>

definition errorMiddleware :: "routeError \<Rightarrow> response" where
  "errorMiddleware err =
     (case err of
        MulterError code \<Rightarrow>
          if code = ''LIMIT_FILE_SIZE'' then failure 400 ''File too large. Maximum size is 10MB.''
          else failure 500 ''Internal server error''
      | PlainError msg \<Rightarrow> failure 500 ''Internal server error'')"

definition uploadInfoFull :: "filePart \<Rightarrow> int \<Rightarrow> json" where
  "uploadInfoFull file t = JObj (fmap_of_list
     [(''originalName'', JStr (originalname file)), (''mimetype'', JStr (mimetype file)),
      (''size'', JNum (of_nat (size file))), (''uploadedAt'', JDate t),
      (''data'', JStr (bufferBase64 file))])"

definition uploadInfoPublic :: "filePart \<Rightarrow> int \<Rightarrow> json" where
  "uploadInfoPublic file t = JObj (fmap_of_list
     [(''originalName'', JStr (originalname file)), (''mimetype'', JStr (mimetype file)),
      (''size'', JNum (of_nat (size file))), (''uploadedAt'', JDate t)])"

text \<open>
  The handler of \<open>POST /api/session/:sessionId/upload\<close>, after the multer middleware.
  \<open>uploads.push\<close> on a value that is not an array throws, which the handler's
  \<open>catch\<close> answers with 500.
\<close>

definition uploadHandler :: "string \<Rightarrow> filePart option \<Rightarrow> server \<Rightarrow> response \<times> server" where
  "uploadHandler sid reqFile sv =
     (if \<not> validateSessionId sid then (failure 400 ''Invalid session ID format'', sv)
      else case sessionsGet sv sid of
        None \<Rightarrow> (failure 404 ''Session not found'', sv)
      | Some s \<Rightarrow>
          (case reqFile of
             None \<Rightarrow> (failure 400 ''No file uploaded'', sv)
           | Some file \<Rightarrow>
               (let (t, sv1) = newDate sv in
                case getProp (JObj (workspaceData s)) ''uploads'' of
                  JArr xs \<Rightarrow>
                    (let sv2 = mutate sid (\<lambda>s. s\<lparr>workspaceData :=
                                 fmupd ''uploads'' (JArr (xs @ [uploadInfoFull file t])) (workspaceData s)\<rparr>) sv1;
                         sv3 = updateLastActivity sid sv2
                     in (ok 200 ''File uploaded successfully'' (UploadInfoJSON (uploadInfoPublic file t)), sv3))
                | _ \<Rightarrow> (failure 500 ''Internal server error'', sv1))))"

text \<open>The whole route: the multer middleware, then the handler or the error middleware.\<close>

definition uploadRoute :: "string \<Rightarrow> filePart option \<Rightarrow> server \<Rightarrow> response \<times> server" where
  "uploadRoute sid part sv =
     (case uploadSingle part of
        Inl err \<Rightarrow> (errorMiddleware err, sv)
      | Inr reqFile \<Rightarrow> uploadHandler sid reqFile sv)"

text \<open>\<open>GET /api/health\<close>\<close>

definition healthHandler :: "server \<Rightarrow> response \<times> server" where
  "healthHandler sv =
     (let (t, sv1) = newDate sv
      in (ok 200 ''Server is running'' (HealthJSON t (length (sessions sv1))), sv1))"

subsection \<open>Runs of the server\<close>

datatype request =
    Init string
  | Get string
  | Put string json
  | Reset string
  | Upload string "filePart option"
  | Sweep
  | Health

fun handle :: "request \<Rightarrow> server \<Rightarrow> response option \<times> server" where
  "handle (Init uuid) sv = (let (r, sv1) = initHandler uuid sv in (Some r, sv1))"
| "handle (Get sid) sv = (let (r, sv1) = getHandler sid sv in (Some r, sv1))"
| "handle (Put sid body) sv = (let (r, sv1) = putHandler sid body sv in (Some r, sv1))"
| "handle (Reset sid) sv = (let (r, sv1) = resetHandler sid sv in (Some r, sv1))"
| "handle (Upload sid part) sv = (let (r, sv1) = uploadRoute sid part sv in (Some r, sv1))"
| "handle Sweep sv = (None, cleanupSessions sv)"
| "handle Health sv = (let (r, sv1) = healthHandler sv in (Some r, sv1))"

definition step :: "server \<Rightarrow> request \<Rightarrow> server" where
  "step sv r = snd (handle r sv)"

definition run :: "server \<Rightarrow> request list \<Rightarrow> server" where
  "run sv rs = foldl step sv rs"

definition startServer :: "(nat \<Rightarrow> int) \<Rightarrow> server" where
  "startServer c = \<lparr>sessions = [], clock = c, ticks = 0\<rparr>"

text \<open>What the store holds for a session, for stating results.\<close>

definition storedUi :: "server \<Rightarrow> string \<Rightarrow> string \<Rightarrow> json option" where
  "storedUi sv sid k = (case sessionsGet sv sid of None \<Rightarrow> None | Some s \<Rightarrow> fmlookup (uiState s) k)"

definition storedLastActivity :: "server \<Rightarrow> string \<Rightarrow> int option" where
  "storedLastActivity sv sid = map_option lastActivity (sessionsGet sv sid)"

definition sessionOf :: "response \<Rightarrow> UserSession option" where
  "sessionOf r = (case payload r of SessionJSON s \<Rightarrow> Some s | _ \<Rightarrow> None)"

section \<open>The local state store (React hook \<open>useSessionManager\<close>)\<close>

text \<open>
  The hook's state and the entry of \<open>localStorage\<close> under \<open>SESSION_STORAGE_KEY\<close>
  (the stored text is \<open>JSON.stringify\<close> of a state, kept here as that state).
\<close>

record hook =
  state :: "(string, json) fmap"
  isLoading :: bool
  error :: "string option"
  localStorage :: "(string, json) fmap option"

text \<open>What a \<open>catch\<close> clause receives: an \<open>Error\<close> with its message, or any other value.\<close>

datatype thrown =
    ErrorObject string
  | OtherValue

definition errorMessage :: "thrown \<Rightarrow> string" where
  "errorMessage e = (case e of ErrorObject msg \<Rightarrow> msg | OtherValue \<Rightarrow> ''Unknown error'')"

text \<open>
  \<open>updateState\<close> of the hook. \<open>setItemThrows\<close> is the outcome of \<open>localStorage.setItem\<close>:
  \<open>None\<close> when it stores the text, the thrown value when it fails (quota exceeded).
\<close>

definition useSessionManager_updateState ::
    "(string, json) fmap \<Rightarrow> thrown option \<Rightarrow> hook \<Rightarrow> hook" where
  "useSessionManager_updateState updates setItemThrows h =
     (let newState = spread (state h) (JObj updates) in
      case setItemThrows of
        None \<Rightarrow> h\<lparr>state := newState, localStorage := Some newState\<rparr>
      | Some e \<Rightarrow> h\<lparr>state := newState, error := Some (''Failed to save: '' @ errorMessage e)\<rparr>)"

section \<open>The sync scheduler (class \<open>SessionManager\<close> of script.js)\<close>

record SessionManager =
  mgrSessionId :: "string option"
  syncTimeout :: "nat option"
  validationInterval :: "nat option"
  isInitialized :: bool
  mgrState :: "(string, json) fmap"

datatype fetchCall =
    PostInit
  | GetSession string
  | PutState string "(string, json) fmap"
  | DeleteReset string

text \<open>
  The browser: the current time, the pending \<open>setTimeout\<close> callbacks as (timer, due time)
  in the order they were set (every timeout of the class runs \<open>syncToServer\<close>), the running
  \<open>setInterval\<close> handles, the next free timer, the \<open>sessionId\<close> entry of
  \<open>sessionStorage\<close>, and the requests sent with \<open>fetch\<close>, each with its time.
\<close>

record browser =
  now :: nat
  timeouts :: "(nat \<times> nat) list"
  intervals :: "nat list"
  nextHandle :: nat
  sessionStorage :: "string option"
  sent :: "(nat \<times> fetchCall) list"

definition setTimeout :: "nat \<Rightarrow> browser \<Rightarrow> nat \<times> browser" where
  "setTimeout wait b =
     (nextHandle b,
      b\<lparr>timeouts := timeouts b @ [(nextHandle b, now b + wait)], nextHandle := Suc (nextHandle b)\<rparr>)"

definition clearTimeout :: "nat option \<Rightarrow> browser \<Rightarrow> browser" where
  "clearTimeout timer b =
     (case timer of
        None \<Rightarrow> b
      | Some i \<Rightarrow> b\<lparr>timeouts := filter (\<lambda>(j, due). j \<noteq> i) (timeouts b)\<rparr>)"

definition setInterval :: "browser \<Rightarrow> nat \<times> browser" where
  "setInterval b =
     (nextHandle b, b\<lparr>intervals := intervals b @ [nextHandle b], nextHandle := Suc (nextHandle b)\<rparr>)"

definition clearInterval :: "nat option \<Rightarrow> browser \<Rightarrow> browser" where
  "clearInterval timer b =
     (case timer of
        None \<Rightarrow> b
      | Some i \<Rightarrow> b\<lparr>intervals := filter (\<lambda>j. j \<noteq> i) (intervals b)\<rparr>)"

definition fetch :: "fetchCall \<Rightarrow> browser \<Rightarrow> browser" where
  "fetch call b = b\<lparr>sent := sent b @ [(now b, call)]\<rparr>"

text \<open>
  The answer to a \<open>fetch\<close>: \<open>Rejected\<close> when \<open>fetch\<close> or \<open>response.json()\<close> throws (network
  failure, a body that is not JSON), else the parsed body: \<open>data.success\<close>, \<open>data.sessionId\<close>
  and \<open>data.session.uiState\<close> (\<open>None\<close> when \<open>data.session\<close> or its \<open>uiState\<close> is missing).
\<close>

datatype fetchResult =
    Rejected
  | Reply bool string "(string, json) fmap option"

definition newSessionManager :: SessionManager where
  "newSessionManager =
     \<lparr>mgrSessionId = None, syncTimeout = None, validationInterval = None, isInitialized = False,
      mgrState = fmap_of_list
        [(''activeTab'', JStr ''grid''), (''excelToggle'', JBool False), (''sidebarCollapsed'', JBool False),
         (''fileConfigs'', JObj (fmap_of_list [(''tableName'', JStr ''Table1''), (''sheetName'', JStr ''Sheet1'')])),
         (''docProps'', JObj (fmap_of_list
            [(''title'', JStr []), (''subject'', JStr []), (''keywords'', JStr []), (''createdBy'', JStr []),
             (''description'', JStr []), (''lastModifiedBy'', JStr []), (''category'', JStr []),
             (''revision'', JStr [])])),
         (''pqQuery'', JObj (fmap_of_list
            [(''queryMashup'', JStr []), (''refreshOnOpen'', JBool False), (''queryName'', JStr ''Query1'')])),
         (''gridView'', JObj (fmap_of_list
            [(''isGridView'', JBool False), (''promoteHeaders'', JBool False),
             (''adjustColumnNames'', JBool False)]))]\<rparr>"

text \<open>
  \<open>this.sessionId\<close> when it is truthy: null and the empty string are falsy.
\<close>

definition truthySessionId :: "SessionManager \<Rightarrow> string option" where
  "truthySessionId m =
     (case mgrSessionId m of None \<Rightarrow> None | Some sid \<Rightarrow> if sid = [] then None else Some sid)"

text \<open>\<open>syncToServer\<close>: the answer to the request is only logged.\<close>

definition syncToServer :: "SessionManager \<times> browser \<Rightarrow> SessionManager \<times> browser" where
  "syncToServer mb =
     (case mb of (m, b) \<Rightarrow>
        (case truthySessionId m of
           None \<Rightarrow> (m, b)
         | Some sid \<Rightarrow> (m, fetch (PutState sid (mgrState m)) b)))"

text \<open>\<open>this.debouncedSync = this.debounce(this.syncToServer, 500)\<close>\<close>

definition debouncedSync :: "SessionManager \<times> browser \<Rightarrow> SessionManager \<times> browser" where
  "debouncedSync mb =
     (case mb of (m, b) \<Rightarrow>
        (let b1 = clearTimeout (syncTimeout m) b;
             (timer, b2) = setTimeout 500 b1
         in (m\<lparr>syncTimeout := Some timer\<rparr>, b2)))"

definition SessionManager_updateState ::
    "json \<Rightarrow> SessionManager \<times> browser \<Rightarrow> SessionManager \<times> browser" where
  "SessionManager_updateState newState mb =
     (case mb of (m, b) \<Rightarrow>
        (let m1 = m\<lparr>mgrState := spread (mgrState m) newState\<rparr>
         in if isInitialized m1 then debouncedSync (m1, b) else (m1, b)))"

text \<open>
  The event loop: when time passes to \<open>t\<close>, the pending timeouts due by then fire in the
  order of their due times (ties in the order they were set), each at its due time, if it
  has not been cleared meanwhile.
\<close>

fun fireAll :: "(nat \<times> nat) list \<Rightarrow> SessionManager \<times> browser \<Rightarrow> SessionManager \<times> browser" where
  "fireAll [] mb = mb"
| "fireAll ((timer, due) # rest) mb =
     fireAll rest
       (case mb of (m, b) \<Rightarrow>
          if (timer, due) \<in> set (timeouts b)
          then syncToServer (m, b\<lparr>timeouts := filter (\<lambda>(j, d). j \<noteq> timer) (timeouts b),
                                  now := max (now b) due\<rparr>)
          else (m, b))"

definition advanceTo :: "nat \<Rightarrow> SessionManager \<times> browser \<Rightarrow> SessionManager \<times> browser" where
  "advanceTo t mb =
     (case fireAll (sort_key snd (filter (\<lambda>(j, due). due \<le> t) (timeouts (snd mb)))) mb of
        (m, b) \<Rightarrow> (m, b\<lparr>now := max (now b) t\<rparr>))"

text \<open>A sequence of local writes, each with the time at which it is made.\<close>

fun writes :: "(nat \<times> json) list \<Rightarrow> SessionManager \<times> browser \<Rightarrow> SessionManager \<times> browser" where
  "writes [] mb = mb"
| "writes ((t, newState) # ws) mb = writes ws (SessionManager_updateState newState (advanceTo t mb))"

text \<open>Each write of the sequence comes less than 500 time units after the one before.\<close>

fun paced :: "nat \<Rightarrow> (nat \<times> json) list \<Rightarrow> bool" where
  "paced prev [] = True"
| "paced prev ((t, newState) # ws) = (prev \<le> t \<and> t < prev + 500 \<and> paced t ws)"

subsection \<open>Session bootstrap and periodic validation\<close>

definition adopt :: "(string, json) fmap option \<Rightarrow> SessionManager \<Rightarrow> SessionManager" where
  "adopt ui m = (case ui of None \<Rightarrow> m | Some u \<Rightarrow> m\<lparr>mgrState := u\<rparr>)"

definition createNewSession ::
    "fetchResult \<Rightarrow> SessionManager \<times> browser \<Rightarrow> bool \<times> SessionManager \<times> browser" where
  "createNewSession r mb =
     (case mb of (m, b) \<Rightarrow>
        (let b1 = fetch PostInit b in
         case r of
           Rejected \<Rightarrow> (False, m, b1)
         | Reply good sid ui \<Rightarrow>
             if good then (True, adopt ui (m\<lparr>mgrSessionId := Some sid\<rparr>), b1\<lparr>sessionStorage := Some sid\<rparr>)
             else (False, m, b1)))"

definition loadExistingSession ::
    "string \<Rightarrow> fetchResult \<Rightarrow> SessionManager \<times> browser \<Rightarrow> bool \<times> SessionManager \<times> browser" where
  "loadExistingSession sid r mb =
     (case mb of (m, b) \<Rightarrow>
        (let b1 = fetch (GetSession sid) b in
         case r of
           Rejected \<Rightarrow> (False, m, b1\<lparr>sessionStorage := None\<rparr>)
         | Reply good sid' ui \<Rightarrow>
             if good then (True, adopt ui (m\<lparr>mgrSessionId := Some sid\<rparr>), b1)
             else (False, m, b1\<lparr>sessionStorage := None\<rparr>)))"

text \<open>\<open>startPeriodicSync\<close>: a timer is truthy unless it is 0.\<close>

definition startPeriodicSync :: "SessionManager \<times> browser \<Rightarrow> SessionManager \<times> browser" where
  "startPeriodicSync mb =
     (case mb of (m, b) \<Rightarrow>
        (let b1 = (case validationInterval m of
                     None \<Rightarrow> b
                   | Some i \<Rightarrow> if i \<noteq> 0 then clearInterval (Some i) b else b);
             (timer, b2) = setInterval b1
         in (m\<lparr>validationInterval := Some timer\<rparr>, b2)))"

text \<open>
  \<open>init\<close>; \<open>rLoad\<close> and \<open>rCreate\<close> are the answers to the request of
  \<open>loadExistingSession\<close> and of \<open>createNewSession\<close>, if they are made.
\<close>

definition init ::
    "fetchResult \<Rightarrow> fetchResult \<Rightarrow> SessionManager \<times> browser \<Rightarrow> bool \<times> SessionManager \<times> browser" where
  "init rLoad rCreate mb =
     (let (loaded, mb1) =
            (case sessionStorage (snd mb) of
               None \<Rightarrow> (False, mb)
             | Some existing \<Rightarrow> if existing = [] then (False, mb) else loadExistingSession existing rLoad mb)
      in if loaded
         then (case mb1 of (m, b) \<Rightarrow> (True, startPeriodicSync (m\<lparr>isInitialized := True\<rparr>, b)))
         else (case createNewSession rCreate mb1 of
                 (created, m, b) \<Rightarrow>
                   if created then (True, startPeriodicSync (m\<lparr>isInitialized := True\<rparr>, b))
                   else (False, m, b)))"

text \<open>
  One run of the interval callback of \<open>startPeriodicSync\<close>; \<open>rGet\<close> is the answer to its
  request. The run is taken as one step: no other callback runs while it awaits.
\<close>

definition validationTick ::
    "fetchResult \<Rightarrow> fetchResult \<Rightarrow> fetchResult \<Rightarrow> SessionManager \<times> browser \<Rightarrow> SessionManager \<times> browser" where
  "validationTick rGet rLoad rCreate mb =
     (case mb of (m, b) \<Rightarrow>
        (case truthySessionId m of
           None \<Rightarrow> (m, b)
         | Some current \<Rightarrow>
             (let b1 = fetch (GetSession current) b in
              case rGet of
                Rejected \<Rightarrow> (m, b1)
              | Reply good sid ui \<Rightarrow>
                  if \<not> good then
                    (let b2 = b1\<lparr>sessionStorage := None\<rparr>;
                         m1 = m\<lparr>mgrSessionId := None, isInitialized := False\<rparr>;
                         b3 = clearInterval (validationInterval m1) b2
                     in snd (init rLoad rCreate (m1, b3)))
                  else (m, b1))))"

definition countCalls :: "fetchCall \<Rightarrow> browser \<Rightarrow> nat" where
  "countCalls call b = length (filter (\<lambda>(t, c). c = call) (sent b))"

section \<open>Properties and example inputs\<close>

text \<open>
  The invariant of the store: the keys of the Map are distinct, every record is stored
  under its own \<open>sessionId\<close>, and no record was active before it was created.
\<close>

definition storeInv :: "server \<Rightarrow> bool" where
  "storeInv sv =
     (distinct (map fst (sessions sv)) \<and>
      list_all (\<lambda>(k, s). sessionId s = k \<and> createdAt s \<le> lastActivity s) (sessions sv))"

text \<open>Every record was created at or before the next clock reading.\<close>

definition createdInPast :: "server \<Rightarrow> bool" where
  "createdInPast sv = list_all (\<lambda>(k, s). createdAt s \<le> clock sv (ticks sv)) (sessions sv)"

text \<open>Every record of the second store is a record of the first with the same id and creation time.\<close>

definition keepsIdentity :: "server \<Rightarrow> server \<Rightarrow> bool" where
  "keepsIdentity sv sv' =
     (\<forall>k s'. sessionsGet sv' k = Some s' \<longrightarrow>
        (\<exists>s. sessionsGet sv k = Some s \<and> sessionId s' = sessionId s \<and> createdAt s' = createdAt s))"

text \<open>The part of the invariant that does not speak of time.\<close>

definition uniqueIds :: "server \<Rightarrow> bool" where
  "uniqueIds sv =
     (distinct (map fst (sessions sv)) \<and> list_all (\<lambda>(k, s). sessionId s = k) (sessions sv))"

definition exampleId :: string where
  "exampleId = ''123e4567-e89b-42d3-a456-426614174000''"

definition freshId :: string where
  "freshId = ''9b2c1a3d-5e6f-4a7b-8c9d-0e1f2a3b4c5d''"

text \<open>A server whose clock advances by one with every reading, after one session was created.\<close>

definition exampleServer :: server where
  "exampleServer = snd (initHandler exampleId (startServer (\<lambda>n. 1000 + int n)))"

text \<open>The same, with all clock readings in the same millisecond.\<close>

definition sameMillisecondServer :: server where
  "sameMillisecondServer = snd (initHandler exampleId (startServer (\<lambda>n. 1000)))"

text \<open>A store with a session idle for longer than \<open>maxAge\<close> and a recent one.\<close>

definition staleServer :: server where
  "staleServer =
     \<lparr>sessions =
        [(exampleId, \<lparr>sessionId = exampleId, createdAt = 0, lastActivity = 0,
            uiState = defaultUiState, workspaceData = defaultWorkspaceData\<rparr>),
         (freshId, \<lparr>sessionId = freshId, createdAt = 99999000, lastActivity = 99999999,
            uiState = defaultUiState, workspaceData = defaultWorkspaceData\<rparr>)],
      clock = (\<lambda>n. 100000000), ticks = 0\<rparr>"

text \<open>\<open>{uiState: {activeTab: 'table'}, workspaceData: {gridData: 'x'}}\<close>\<close>

definition combinedPatch :: json where
  "combinedPatch = JObj (fmap_of_list
     [(''uiState'', JObj (fmap_of_list [(''activeTab'', JStr ''table'')])),
      (''workspaceData'', JObj (fmap_of_list [(''gridData'', JStr ''x'')]))])"

text \<open>\<open>{uiState: {activeTab: ''}}\<close>\<close>

definition emptyTabPatch :: json where
  "emptyTabPatch = JObj (fmap_of_list [(''uiState'', JObj (fmap_of_list [(''activeTab'', JStr [])]))])"

text \<open>\<open>{uiState: {activeTab: 'bogus'}}\<close>\<close>

definition bogusTabPatch :: json where
  "bogusTabPatch = JObj (fmap_of_list [(''uiState'', JObj (fmap_of_list [(''activeTab'', JStr ''bogus'')]))])"

text \<open>A system clock that is set back by a second after its first two readings.\<close>

definition steppedBackClock :: "nat \<Rightarrow> int" where
  "steppedBackClock n = (if n < 2 then 2000 else 1000)"

definition textFile :: filePart where
  "textFile = \<lparr>fieldname = ''file'', originalname = ''notes.txt'', mimetype = ''text/plain'',
     size = 5, bufferBase64 = ''aGVsbG8=''\<rparr>"

definition bigCsv :: filePart where
  "bigCsv = \<lparr>fieldname = ''file'', originalname = ''big.csv'', mimetype = ''text/csv'',
     size = 10485761, bufferBase64 = []\<rparr>"

definition smallCsv :: filePart where
  "smallCsv = \<lparr>fieldname = ''file'', originalname = ''rows.csv'', mimetype = ''text/csv'',
     size = 3, bufferBase64 = ''YSxi''\<rparr>"

definition exampleHook :: hook where
  "exampleHook = \<lparr>state = fmap_of_list [(''activeTab'', JStr ''grid''), (''excelToggle'', JBool False)],
     isLoading = False, error = None, localStorage = None\<rparr>"

definition idleBrowser :: browser where
  "idleBrowser = \<lparr>now = 0, timeouts = [], intervals = [], nextHandle = 1, sessionStorage = None, sent = []\<rparr>"

definition tabPatch :: "string \<Rightarrow> json" where
  "tabPatch tab = JObj (fmap_of_list [(''activeTab'', JStr tab)])"

text \<open>A manager after a successful \<open>init\<close>, and its browser.\<close>

definition activeManager :: SessionManager where
  "activeManager = newSessionManager\<lparr>mgrSessionId := Some exampleId,
     isInitialized := True, validationInterval := Some 1\<rparr>"

definition activeBrowser :: browser where
  "activeBrowser = \<lparr>now = 0, timeouts = [], intervals = [1], nextHandle = 2,
     sessionStorage = Some exampleId, sent = []\<rparr>"

section \<open>Basic facts\<close>

lemma exampleId_valid: "validateSessionId exampleId"
  by (simp add: validateSessionId_def exampleId_def isHex_def eval_nat_numeral)

lemma freshId_valid: "validateSessionId freshId"
  by (simp add: validateSessionId_def freshId_def isHex_def eval_nat_numeral)

lemma not_a_uuid_invalid: "\<not> validateSessionId ''not-a-uuid''"
  by (simp add: validateSessionId_def isHex_def eval_nat_numeral)

lemma exampleId_neq_freshId: "exampleId \<noteq> freshId"
  by (simp add: exampleId_def freshId_def)

lemma fmlookup_spread:
  "fmlookup (spread a b) k = (case fmlookup (ownProps b) k of Some v \<Rightarrow> Some v | None \<Rightarrow> fmlookup a k)"
  by (auto simp: spread_def fmlookup_dom_iff split: option.splits)

lemma newDate_simps [simp]:
  "fst (newDate sv) = clock sv (ticks sv)"
  "sessions (snd (newDate sv)) = sessions sv"
  "clock (snd (newDate sv)) = clock sv"
  "ticks (snd (newDate sv)) = Suc (ticks sv)"
  by (simp_all add: newDate_def)

lemma mutate_simps [simp]:
  "clock (mutate sid f sv) = clock sv"
  "ticks (mutate sid f sv) = ticks sv"
  "sessionsGet (mutate sid f sv) k = (if k = sid then map_option f (sessionsGet sv sid) else sessionsGet sv k)"
  by (auto simp: mutate_def sessionsGet_def map_of_map_entry split: option.splits)

lemma updateLastActivity_simps [simp]:
  "clock (updateLastActivity sid sv) = clock sv"
  "ticks (updateLastActivity sid sv) = Suc (ticks sv)"
  "sessionsGet (updateLastActivity sid sv) k =
     (if k = sid then map_option (\<lambda>s. s\<lparr>lastActivity := clock sv (ticks sv)\<rparr>) (sessionsGet sv sid)
      else sessionsGet sv k)"
  by (auto simp: updateLastActivity_def newDate_def sessionsGet_def mutate_def map_of_map_entry
      split: option.splits)

lemma exampleServer_simps:
  "sessions exampleServer = [(exampleId, \<lparr>sessionId = exampleId, createdAt = 1000, lastActivity = 1001,
      uiState = defaultUiState, workspaceData = defaultWorkspaceData\<rparr>)]"
  "ticks exampleServer = 2" "clock exampleServer = (\<lambda>n. 1000 + int n)"
  by (simp_all add: exampleServer_def initHandler_def newUserSession_def newDate_def startServer_def
      sessionsSet_def)

lemma sameMillisecondServer_simps:
  "sessions sameMillisecondServer = [(exampleId, \<lparr>sessionId = exampleId, createdAt = 1000, lastActivity = 1000,
      uiState = defaultUiState, workspaceData = defaultWorkspaceData\<rparr>)]"
  "ticks sameMillisecondServer = 2" "clock sameMillisecondServer = (\<lambda>n. 1000)"
  by (simp_all add: sameMillisecondServer_def initHandler_def newUserSession_def newDate_def
      startServer_def sessionsSet_def)

section \<open>C1: a rejected state update\<close>

text \<open>
  An update whose \<open>uiState\<close> part is invalid is rejected before anything is changed, and so
  is an update with an invalid \<open>workspaceData\<close> part and no \<open>uiState\<close> part.
\<close>

lemma put_invalid_ui_unchanged:
  assumes "validateSessionId sid" and "sessionsGet sv sid = Some s"
    and "\<not> isUndefined (getProp body ''uiState'')" and "\<not> validateUiState (getProp body ''uiState'')"
  shows "putHandler sid body sv = (failure 400 ''Invalid UI state data'', sv)"
  using assms by (simp add: putHandler_def Let_def)

lemma put_invalid_workspace_alone_unchanged:
  assumes "validateSessionId sid" and "sessionsGet sv sid = Some s"
    and "isUndefined (getProp body ''uiState'')"
    and "\<not> isUndefined (getProp body ''workspaceData'')"
    and "\<not> validateWorkspaceData (getProp body ''workspaceData'')"
  shows "putHandler sid body sv = (failure 400 ''Invalid workspace data'', sv)"
  using assms by (simp add: putHandler_def Let_def)

text \<open>\<open>validateUiState\<close> has no list of allowed keys: a patch with an unknown key is applied.\<close>

lemma put_unknown_ui_key_accepted:
  "status (fst (putHandler exampleId
      (JObj (fmap_of_list [(''uiState'', JObj (fmap_of_list [(''bogusKey'', JNum 1)]))])) exampleServer)) = 200 \<and>
   storedUi (snd (putHandler exampleId
      (JObj (fmap_of_list [(''uiState'', JObj (fmap_of_list [(''bogusKey'', JNum 1)]))])) exampleServer))
      exampleId ''bogusKey'' = Some (JNum 1)"
  by (simp add: putHandler_def exampleId_valid getProp_def sessionsGet_def exampleServer_simps
      validateUiState_def updateUiState_def updateLastActivity_def mutate_def newDate_def spread_def
      ok_def storedUi_def defaultUiState_def toJSON_def)

text \<open>
  C1. The claim: an update with an invalid patch answers 400 and leaves the stored record,
  its \<open>uiState\<close> and its \<open>workspaceData\<close>, as it was, also when the \<open>uiState\<close> part of a
  combined patch is valid and the \<open>workspaceData\<close> part is not. The handler applies the
  \<open>uiState\<close> part before it validates the \<open>workspaceData\<close> part: on the combined patch
  \<open>{uiState: {activeTab: 'table'}, workspaceData: {gridData: 'x'}}\<close> it answers 400, and the
  stored \<open>activeTab\<close> has changed from \<open>grid\<close> to \<open>table\<close> and \<open>lastActivity\<close> from 1001 to 1002.
\<close>

theorem put_rejected_workspace_keeps_ui_change:
  "status (fst (putHandler exampleId combinedPatch exampleServer)) = 400 \<and>
   message (fst (putHandler exampleId combinedPatch exampleServer)) = ''Invalid workspace data'' \<and>
   storedUi exampleServer exampleId ''activeTab'' = Some (JStr ''grid'') \<and>
   storedUi (snd (putHandler exampleId combinedPatch exampleServer)) exampleId ''activeTab'' =
     Some (JStr ''table'') \<and>
   storedLastActivity exampleServer exampleId = Some 1001 \<and>
   storedLastActivity (snd (putHandler exampleId combinedPatch exampleServer)) exampleId = Some 1002"
  by (simp add: putHandler_def exampleId_valid combinedPatch_def getProp_def sessionsGet_def
      exampleServer_simps validateUiState_def validateWorkspaceData_def tabNames_def allowedKeys_def
      updateUiState_def updateLastActivity_def mutate_def newDate_def spread_def failure_def
      storedUi_def storedLastActivity_def defaultUiState_def)

section \<open>C10: a falsy active tab\<close>

text \<open>
  On an object, \<open>validateUiState\<close> is exactly the two tests of the source: the tab set is
  consulted only for a truthy \<open>activeTab\<close>.
\<close>

lemma validateUiState_object:
  "validateUiState (JObj u) =
     ((\<not> truthy (getProp (JObj u) ''activeTab'') \<or> includesTab (getProp (JObj u) ''activeTab'')) \<and>
      (isUndefined (getProp (JObj u) ''excelToggle'') \<or> typeofBoolean (getProp (JObj u) ''excelToggle'')))"
  by (auto simp: validateUiState_def)


text \<open>
  C10. For an existing session, a state update whose \<open>uiState\<close> patch is an object that sets
  \<open>activeTab\<close> to a falsy value (the empty string, for example), with the rest of the body
  valid, passes validation and answers 200, and the stored record then has that value as its
  \<open>activeTab\<close>. The restriction to the tab set is enforced for truthy values: a patch that
  sets \<open>activeTab\<close> to a truthy value outside the set fails validation and is answered with
  400, the server unchanged.
\<close>

theorem put_activeTab_enforced_only_if_truthy:
  "(validateSessionId sid \<and> sessionsGet sv sid = Some s \<and>
    getProp body ''uiState'' = JObj u \<and> fmlookup u ''activeTab'' = Some a \<and> \<not> truthy a \<and>
    (isUndefined (getProp (JObj u) ''excelToggle'') \<or> typeofBoolean (getProp (JObj u) ''excelToggle'')) \<and>
    (isUndefined (getProp body ''workspaceData'') \<or> validateWorkspaceData (getProp body ''workspaceData''))
    \<longrightarrow>
      validateUiState (JObj u) \<and>
      status (fst (putHandler sid body sv)) = 200 \<and>
      storedUi (snd (putHandler sid body sv)) sid ''activeTab'' = Some a) \<and>
   (validateSessionId sid' \<and> sessionsGet sv' sid' = Some s' \<and>
    getProp body' ''uiState'' = JObj u' \<and> fmlookup u' ''activeTab'' = Some a' \<and>
    truthy a' \<and> \<not> includesTab a'
    \<longrightarrow>
      \<not> validateUiState (JObj u') \<and>
      putHandler sid' body' sv' = (failure 400 ''Invalid UI state data'', sv')) \<and>
   validateUiState (JObj u0) =
     ((\<not> truthy (getProp (JObj u0) ''activeTab'') \<or> includesTab (getProp (JObj u0) ''activeTab'')) \<and>
      (isUndefined (getProp (JObj u0) ''excelToggle'') \<or> typeofBoolean (getProp (JObj u0) ''excelToggle'')))"
proof (intro conjI impI)
  assume h: "validateSessionId sid \<and> sessionsGet sv sid = Some s \<and>
    getProp body ''uiState'' = JObj u \<and> fmlookup u ''activeTab'' = Some a \<and> \<not> truthy a \<and>
    (isUndefined (getProp (JObj u) ''excelToggle'') \<or> typeofBoolean (getProp (JObj u) ''excelToggle'')) \<and>
    (isUndefined (getProp body ''workspaceData'') \<or> validateWorkspaceData (getProp body ''workspaceData''))"
  show v: "validateUiState (JObj u)"
    using h by (auto simp: validateUiState_def getProp_def)
  have ui: "storedUi (updateUiState sid (JObj u) sv) sid ''activeTab'' = Some a"
    using h by (simp add: storedUi_def updateUiState_def fmlookup_spread)
  have wd: "storedUi (updateWorkspaceData sid w sv0) sid k = storedUi sv0 sid k" for w sv0 k
    by (cases "sessionsGet sv0 sid") (simp_all add: storedUi_def updateWorkspaceData_def)
  show "status (fst (putHandler sid body sv)) = 200"
    using h v by (auto simp: putHandler_def Let_def ok_def)
  show "storedUi (snd (putHandler sid body sv)) sid ''activeTab'' = Some a"
    using h v ui by (auto simp: putHandler_def Let_def wd)
next
  assume h: "validateSessionId sid' \<and> sessionsGet sv' sid' = Some s' \<and>
    getProp body' ''uiState'' = JObj u' \<and> fmlookup u' ''activeTab'' = Some a' \<and>
    truthy a' \<and> \<not> includesTab a'"
  show n: "\<not> validateUiState (JObj u')"
    using h by (simp add: validateUiState_def getProp_def)
  show "putHandler sid' body' sv' = (failure 400 ''Invalid UI state data'', sv')"
    using h n by (simp add: putHandler_def Let_def)
next
  show "validateUiState (JObj u0) =
     ((\<not> truthy (getProp (JObj u0) ''activeTab'') \<or> includesTab (getProp (JObj u0) ''activeTab'')) \<and>
      (isUndefined (getProp (JObj u0) ''excelToggle'') \<or> typeofBoolean (getProp (JObj u0) ''excelToggle'')))"
    by (rule validateUiState_object)
qed

theorem put_activeTab_enforced_only_if_truthy_witness:
  "validateSessionId exampleId \<and>
   getProp emptyTabPatch ''uiState'' = JObj (fmap_of_list [(''activeTab'', JStr [])]) \<and>
   \<not> truthy (JStr []) \<and> \<not> includesTab (JStr []) \<and>
   status (fst (putHandler exampleId emptyTabPatch exampleServer)) = 200 \<and>
   storedUi (snd (putHandler exampleId emptyTabPatch exampleServer)) exampleId ''activeTab'' = Some (JStr []) \<and>
   getProp bogusTabPatch ''uiState'' = JObj (fmap_of_list [(''activeTab'', JStr ''bogus'')]) \<and>
   truthy (JStr ''bogus'') \<and> \<not> includesTab (JStr ''bogus'') \<and>
   putHandler exampleId bogusTabPatch exampleServer = (failure 400 ''Invalid UI state data'', exampleServer)"
proof -
  let ?u = "fmap_of_list [(''activeTab'', JStr [])]"
  let ?v = "fmap_of_list [(''activeTab'', JStr ''bogus'')]"
  let ?s = "\<lparr>sessionId = exampleId, createdAt = 1000, lastActivity = 1001,
        uiState = defaultUiState, workspaceData = defaultWorkspaceData\<rparr>"
  have h2: "sessionsGet exampleServer exampleId = Some ?s"
    by (simp add: sessionsGet_def exampleServer_simps)
  have h3: "getProp emptyTabPatch ''uiState'' = JObj ?u"
    by (simp add: emptyTabPatch_def getProp_def)
  have h4: "fmlookup ?u ''activeTab'' = Some (JStr [])" by simp
  have h5: "\<not> truthy (JStr [])" by simp
  have h6: "isUndefined (getProp (JObj ?u) ''excelToggle'') \<or> typeofBoolean (getProp (JObj ?u) ''excelToggle'')"
    by (simp add: getProp_def)
  have h7: "isUndefined (getProp emptyTabPatch ''workspaceData'') \<or>
            validateWorkspaceData (getProp emptyTabPatch ''workspaceData'')"
    by (simp add: emptyTabPatch_def getProp_def)
  have g3: "getProp bogusTabPatch ''uiState'' = JObj ?v"
    by (simp add: bogusTabPatch_def getProp_def)
  have g4: "fmlookup ?v ''activeTab'' = Some (JStr ''bogus'')" by simp
  have g5: "truthy (JStr ''bogus'') \<and> \<not> includesTab (JStr ''bogus'')"
    by (simp add: tabNames_def)
  note c = put_activeTab_enforced_only_if_truthy [of exampleId exampleServer ?s emptyTabPatch ?u "JStr []"
      exampleId exampleServer ?s bogusTabPatch ?v "JStr ''bogus''" ?u]
  have a: "status (fst (putHandler exampleId emptyTabPatch exampleServer)) = 200 \<and>
      storedUi (snd (putHandler exampleId emptyTabPatch exampleServer)) exampleId ''activeTab'' = Some (JStr [])"
    using c [THEN conjunct1] exampleId_valid h2 h3 h4 h5 h6 h7 by blast
  have b: "putHandler exampleId bogusTabPatch exampleServer = (failure 400 ''Invalid UI state data'', exampleServer)"
    using c [THEN conjunct2, THEN conjunct1] exampleId_valid h2 g3 g4 g5 by blast
  show ?thesis
    using exampleId_valid h3 g3 g5 a b by (simp add: tabNames_def)
qed

section \<open>C4: the sweep of expired sessions\<close>

lemma cleanupLoop_env [simp]:
  "clock (cleanupLoop t es sv) = clock sv" "ticks (cleanupLoop t es sv) = ticks sv"
  by (induction t es sv rule: cleanupLoop.induct) (simp_all add: sessionsDelete_def)

text \<open>The loop removes the keys of the expired entries it iterates over.\<close>

lemma cleanupLoop_sessions:
  "sessions (cleanupLoop t es sv) =
     filter (\<lambda>(k, s). \<not> (\<exists>s'. (k, s') \<in> set es \<and> t - lastActivity s' > maxAge)) (sessions sv)"
proof (induction t es sv rule: cleanupLoop.induct)
  case (1 t sv)
  then show ?case by simp
next
  case (2 t sid s rest sv)
  show ?case
    unfolding cleanupLoop.simps "2.IH"
    by (auto simp: sessionsDelete_def AList.delete_eq intro!: filter_cong)
qed

lemma distinct_keys_same_value:
  "distinct (map fst al) \<Longrightarrow> (k, v) \<in> set al \<Longrightarrow> (k, v') \<in> set al \<Longrightarrow> v = v'"
  by (induction al) (auto simp: rev_image_eqI)

lemma cleanupSessions_sessions:
  assumes "distinct (map fst (sessions sv))"
  shows "sessions (cleanupSessions sv) =
     filter (\<lambda>(k, s). \<not> clock sv (ticks sv) - lastActivity s > maxAge) (sessions sv)"
  unfolding cleanupSessions_def newDate_def
  using assms
  by (auto simp: cleanupLoop_sessions intro!: filter_cong dest: distinct_keys_same_value)

lemma map_of_filter_distinct:
  "distinct (map fst al) \<Longrightarrow>
   map_of (filter (\<lambda>(k, v). P v) al) k =
     (case map_of al k of None \<Rightarrow> None | Some v \<Rightarrow> if P v then Some v else None)"
proof (induction al)
  case Nil
  then show ?case by simp
next
  case (Cons a al)
  obtain k' v' where a: "a = (k', v')" by (cases a)
  have "k' \<notin> fst ` set al" using Cons.prems a by simp
  then have none: "map_of al k' = None" by (simp add: map_of_eq_None_iff)
  show ?case using Cons a none by (auto split: option.splits)
qed

text \<open>
  C4. With the keys of the Map distinct, the sweep reads the clock once and leaves exactly
  the records whose idle time \<open>now - lastActivity\<close> does not exceed \<open>maxAge\<close>, unchanged and
  in their order; and a later \<open>get\<close> of a removed, well-formed id answers 404.
\<close>

theorem cleanup_removes_exactly_expired:
  assumes "distinct (map fst (sessions sv))"
  shows "sessions (cleanupSessions sv) =
           filter (\<lambda>(k, s). \<not> clock sv (ticks sv) - lastActivity s > maxAge) (sessions sv) \<and>
         (validateSessionId sid \<and> sessionsGet sv sid = Some s \<and>
            clock sv (ticks sv) - lastActivity s > maxAge \<longrightarrow>
          getHandler sid (cleanupSessions sv) = (failure 404 ''Session not found'', cleanupSessions sv))"
proof (intro conjI impI)
  show "sessions (cleanupSessions sv) =
          filter (\<lambda>(k, s). \<not> clock sv (ticks sv) - lastActivity s > maxAge) (sessions sv)"
    using assms by (rule cleanupSessions_sessions)
next
  assume a: "validateSessionId sid \<and> sessionsGet sv sid = Some s \<and>
            clock sv (ticks sv) - lastActivity s > maxAge"
  have "sessionsGet (cleanupSessions sv) sid = None"
    unfolding sessionsGet_def cleanupSessions_sessions [OF assms] map_of_filter_distinct [OF assms]
    using a by (simp add: sessionsGet_def)
  with a show "getHandler sid (cleanupSessions sv) = (failure 404 ''Session not found'', cleanupSessions sv)"
    by (simp add: getHandler_def)
qed

theorem cleanup_removes_exactly_expired_witness:
  "distinct (map fst (sessions staleServer)) \<and> validateSessionId exampleId \<and>
   map_option lastActivity (sessionsGet staleServer exampleId) = Some 0 \<and>
   clock staleServer (ticks staleServer) - 0 > maxAge \<and>
   map fst (sessions (cleanupSessions staleServer)) = [freshId] \<and>
   status (fst (getHandler exampleId (cleanupSessions staleServer))) = 404"
proof -
  let ?s = "\<lparr>sessionId = exampleId, createdAt = 0, lastActivity = 0,
            uiState = defaultUiState, workspaceData = defaultWorkspaceData\<rparr>"
  have d: "distinct (map fst (sessions staleServer))"
    using exampleId_neq_freshId by (simp add: staleServer_def)
  have g: "sessionsGet staleServer exampleId = Some ?s"
    by (simp add: staleServer_def sessionsGet_def)
  have e: "clock staleServer (ticks staleServer) - lastActivity ?s > maxAge"
    by (simp add: staleServer_def maxAge_def)
  note c = cleanup_removes_exactly_expired [OF d, of exampleId ?s]
  have f: "sessions (cleanupSessions staleServer) =
      [(freshId, \<lparr>sessionId = freshId, createdAt = 99999000, lastActivity = 99999999,
            uiState = defaultUiState, workspaceData = defaultWorkspaceData\<rparr>)]"
    unfolding c [THEN conjunct1] by (simp add: staleServer_def maxAge_def)
  have n: "getHandler exampleId (cleanupSessions staleServer) =
      (failure 404 ''Session not found'', cleanupSessions staleServer)"
    using c [THEN conjunct2] exampleId_valid g e by blast
  show ?thesis
    using d exampleId_valid g e f n by (simp add: failure_def)
qed

section \<open>C5: reset, then get\<close>

text \<open>
  C5. For an existing session, \<open>reset\<close> followed by \<open>get\<close> answers 200 with a record that has
  the \<open>sessionId\<close> and \<open>createdAt\<close> it had before, the default \<open>uiState\<close> and
  \<open>workspaceData\<close>, and as \<open>lastActivity\<close> the clock reading taken by the \<open>get\<close>. That reading
  is not less than the \<open>lastActivity\<close> before the reset when the clock does not run backwards;
  it is greater only when the clock has advanced in between.
\<close>

theorem reset_then_get:
  assumes "validateSessionId sid" and "sessionsGet sv sid = Some s"
  shows "status (fst (getHandler sid (snd (resetHandler sid sv)))) = 200 \<and>
         sessionOf (fst (getHandler sid (snd (resetHandler sid sv)))) =
           Some \<lparr>sessionId = sessionId s, createdAt = createdAt s,
                 lastActivity = clock sv (Suc (ticks sv)),
                 uiState = defaultUiState, workspaceData = defaultWorkspaceData\<rparr> \<and>
         (mono (clock sv) \<and> lastActivity s \<le> clock sv (ticks sv)
            \<longrightarrow> lastActivity s \<le> clock sv (Suc (ticks sv)))"
proof -
  have m: "mono (clock sv) \<Longrightarrow> clock sv (ticks sv) \<le> clock sv (Suc (ticks sv))"
    by (simp add: monoD)
  show ?thesis
    using assms m
    by (cases s) (auto simp: getHandler_def resetHandler_def resetSession_def toJSON_def ok_def sessionOf_def)
qed

text \<open>
  The claim as the specification states it asks for a strictly greater \<open>lastActivity\<close>. When
  the session is created, reset and read within one millisecond of the clock, the record
  returned has the \<open>lastActivity\<close> it had before the reset.
\<close>

theorem reset_same_millisecond_lastActivity:
  "storedLastActivity sameMillisecondServer exampleId = Some 1000 \<and>
   status (fst (getHandler exampleId (snd (resetHandler exampleId sameMillisecondServer)))) = 200 \<and>
   map_option lastActivity
     (sessionOf (fst (getHandler exampleId (snd (resetHandler exampleId sameMillisecondServer))))) = Some 1000"
  by (simp add: storedLastActivity_def sessionsGet_def sameMillisecondServer_simps getHandler_def
      resetHandler_def exampleId_valid resetSession_def updateLastActivity_def mutate_def newDate_def
      toJSON_def ok_def sessionOf_def Let_def)

theorem reset_then_get_witness:
  "validateSessionId exampleId \<and>
   storedLastActivity exampleServer exampleId = Some 1001 \<and>
   mono (clock exampleServer) \<and>
   sessionOf (fst (getHandler exampleId (snd (resetHandler exampleId exampleServer)))) =
     Some \<lparr>sessionId = exampleId, createdAt = 1000, lastActivity = 1003,
           uiState = defaultUiState, workspaceData = defaultWorkspaceData\<rparr>"
proof -
  have g: "sessionsGet exampleServer exampleId =
      Some \<lparr>sessionId = exampleId, createdAt = 1000, lastActivity = 1001,
        uiState = defaultUiState, workspaceData = defaultWorkspaceData\<rparr>"
    by (simp add: sessionsGet_def exampleServer_simps)
  have m: "mono (clock exampleServer)"
    by (simp add: exampleServer_simps mono_def)
  show ?thesis
    using reset_then_get [OF exampleId_valid g] exampleId_valid g m
    by (simp add: exampleServer_simps storedLastActivity_def)
qed

section \<open>C6: malformed session ids\<close>

text \<open>
  The handlers test the id before they look it up: for a malformed id, \<open>get\<close>,
  \<open>updateState\<close> and \<open>reset\<close> answer 400 and leave the server as it was, and the upload
  route never answers 404 and leaves the server as it was.
\<close>

lemma malformed_get:
  "\<not> validateSessionId sid \<Longrightarrow> getHandler sid sv = (failure 400 ''Invalid session ID format'', sv)"
  by (simp add: getHandler_def)

lemma malformed_put:
  "\<not> validateSessionId sid \<Longrightarrow> putHandler sid body sv = (failure 400 ''Invalid session ID format'', sv)"
  by (simp add: putHandler_def Let_def)

lemma malformed_reset:
  "\<not> validateSessionId sid \<Longrightarrow> resetHandler sid sv = (failure 400 ''Invalid session ID format'', sv)"
  by (simp add: resetHandler_def)

lemma malformed_uploadHandler:
  "\<not> validateSessionId sid \<Longrightarrow>
   uploadHandler sid reqFile sv = (failure 400 ''Invalid session ID format'', sv)"
  by (simp add: uploadHandler_def)

lemma malformed_uploadRoute:
  "\<not> validateSessionId sid \<Longrightarrow>
   snd (uploadRoute sid part sv) = sv \<and> status (fst (uploadRoute sid part sv)) \<in> {400, 500}"
  by (auto simp: uploadRoute_def uploadHandler_def errorMiddleware_def failure_def
      split: sum.splits routeError.splits)

text \<open>
  C6. The claim: for a malformed id every operation addressed by id, the upload included,
  answers 400 before any lookup and never 404. On the upload route the multer middleware
  runs before the handler that tests the id, and the error of its \<open>fileFilter\<close> is answered
  by the error middleware with 500: an upload of a \<open>text/plain\<close> file to the id
  \<open>not-a-uuid\<close> answers 500 \<open>Internal server error\<close>, not 400.
\<close>

theorem upload_malformed_id_disallowed_type:
  "\<not> validateSessionId ''not-a-uuid'' \<and>
   mimetype textFile \<notin> set allowedTypes \<and>
   status (fst (uploadRoute ''not-a-uuid'' (Some textFile) exampleServer)) = 500 \<and>
   message (fst (uploadRoute ''not-a-uuid'' (Some textFile) exampleServer)) = ''Internal server error'' \<and>
   snd (uploadRoute ''not-a-uuid'' (Some textFile) exampleServer) = exampleServer"
  by (simp add: not_a_uuid_invalid uploadRoute_def uploadSingle_def textFile_def fileFilter_def
      allowedTypes_def errorMiddleware_def failure_def)

section \<open>C8: upload limits\<close>

text \<open>
  C8. An upload of a file of an allowed type that is larger than the 10 MiB cap is answered
  with status 400 and the message \<open>File too large. Maximum size is 10MB.\<close>; a request with no
  file, to an existing session, is answered with 400 \<open>No file uploaded\<close>; and an upload
  answered with 200 is of one of the CSV, XLS and XLSX types and within the cap.
\<close>

theorem upload_limits:
  "(fieldname file1 = ''file'' \<and> mimetype file1 \<in> set allowedTypes \<and> fileSizeLimit < size file1 \<longrightarrow>
      uploadRoute sid1 (Some file1) sv1 = (failure 400 ''File too large. Maximum size is 10MB.'', sv1)) \<and>
   (validateSessionId sid2 \<and> sessionsGet sv2 sid2 = Some s2 \<longrightarrow>
      uploadRoute sid2 None sv2 = (failure 400 ''No file uploaded'', sv2)) \<and>
   (status (fst (uploadRoute sid3 part3 sv3)) = 200 \<longrightarrow>
      (\<exists>f. part3 = Some f \<and> mimetype f \<in> set allowedTypes \<and> size f \<le> fileSizeLimit))"
proof (intro conjI impI)
  assume "fieldname file1 = ''file'' \<and> mimetype file1 \<in> set allowedTypes \<and> fileSizeLimit < size file1"
  then show "uploadRoute sid1 (Some file1) sv1 = (failure 400 ''File too large. Maximum size is 10MB.'', sv1)"
    by (simp add: uploadRoute_def uploadSingle_def fileFilter_def errorMiddleware_def)
next
  assume "validateSessionId sid2 \<and> sessionsGet sv2 sid2 = Some s2"
  then show "uploadRoute sid2 None sv2 = (failure 400 ''No file uploaded'', sv2)"
    by (simp add: uploadRoute_def uploadSingle_def uploadHandler_def)
next
  assume a: "status (fst (uploadRoute sid3 part3 sv3)) = 200"
  show "\<exists>f. part3 = Some f \<and> mimetype f \<in> set allowedTypes \<and> size f \<le> fileSizeLimit"
  proof (cases part3)
    case None
    with a show ?thesis
      by (auto simp: uploadRoute_def uploadSingle_def uploadHandler_def failure_def
          split: if_splits option.splits)
  next
    case (Some f)
    with a show ?thesis
      by (auto simp: uploadRoute_def uploadSingle_def uploadHandler_def failure_def fileFilter_def
          errorMiddleware_def split: if_splits option.splits)
  qed
qed

text \<open>
  The claim as the specification states it gives 413 for a file over the cap; the error
  middleware answers \<open>LIMIT_FILE_SIZE\<close> with 400.
\<close>

theorem upload_too_large_status_400:
  "fileSizeLimit < size bigCsv \<and>
   status (fst (uploadRoute exampleId (Some bigCsv) exampleServer)) = 400 \<and>
   status (fst (uploadRoute exampleId (Some bigCsv) exampleServer)) \<noteq> 413"
  by (simp add: uploadRoute_def uploadSingle_def bigCsv_def fileFilter_def allowedTypes_def
      errorMiddleware_def fileSizeLimit_def failure_def)

theorem upload_limits_witness:
  "fieldname bigCsv = ''file'' \<and> mimetype bigCsv \<in> set allowedTypes \<and> fileSizeLimit < size bigCsv \<and>
   uploadRoute exampleId (Some bigCsv) exampleServer =
     (failure 400 ''File too large. Maximum size is 10MB.'', exampleServer) \<and>
   validateSessionId exampleId \<and>
   uploadRoute exampleId None exampleServer = (failure 400 ''No file uploaded'', exampleServer) \<and>
   status (fst (uploadRoute exampleId (Some smallCsv) exampleServer)) = 200 \<and>
   mimetype smallCsv \<in> set allowedTypes \<and> size smallCsv \<le> fileSizeLimit"
proof -
  let ?s = "\<lparr>sessionId = exampleId, createdAt = 1000, lastActivity = 1001,
        uiState = defaultUiState, workspaceData = defaultWorkspaceData\<rparr>"
  have b: "fieldname bigCsv = ''file'' \<and> mimetype bigCsv \<in> set allowedTypes \<and> fileSizeLimit < size bigCsv"
    by (simp add: bigCsv_def allowedTypes_def fileSizeLimit_def)
  have g: "validateSessionId exampleId \<and> sessionsGet exampleServer exampleId = Some ?s"
    by (simp add: exampleId_valid sessionsGet_def exampleServer_simps)
  have u: "status (fst (uploadRoute exampleId (Some smallCsv) exampleServer)) = 200"
    by (simp add: uploadRoute_def uploadSingle_def smallCsv_def fileFilter_def allowedTypes_def
        fileSizeLimit_def uploadHandler_def exampleId_valid sessionsGet_def exampleServer_simps
        newDate_def getProp_def defaultWorkspaceData_def Let_def ok_def)
  note c = upload_limits [of bigCsv exampleId exampleServer exampleId exampleServer ?s
      exampleId "Some smallCsv" exampleServer]
  have c1: "uploadRoute exampleId (Some bigCsv) exampleServer =
     (failure 400 ''File too large. Maximum size is 10MB.'', exampleServer)"
    using c [THEN conjunct1] b by blast
  have c2: "uploadRoute exampleId None exampleServer = (failure 400 ''No file uploaded'', exampleServer)"
    using c [THEN conjunct2, THEN conjunct1] g by blast
  have c3: "mimetype smallCsv \<in> set allowedTypes \<and> size smallCsv \<le> fileSizeLimit"
    using c [THEN conjunct2, THEN conjunct2] u by auto
  show ?thesis
    using b g u c1 c2 c3 by simp
qed

section \<open>C7: the local state store\<close>

text \<open>
  C7. A write merges the partial update into the state one level deep: a key of the update
  has the update's value, any other key keeps its value; this holds whether storing to
  \<open>localStorage\<close> succeeds or throws. When storing succeeds the stored state is the new
  state; when it throws, the state in memory is still the new state, the stored entry is
  what it was, and the hook's \<open>error\<close> carries the message.
\<close>

theorem local_write_merges:
  "fmlookup (state (useSessionManager_updateState updates outcome h)) k =
     (case fmlookup updates k of Some v \<Rightarrow> Some v | None \<Rightarrow> fmlookup (state h) k) \<and>
   (outcome = None \<longrightarrow>
      localStorage (useSessionManager_updateState updates outcome h) =
        Some (state (useSessionManager_updateState updates outcome h)) \<and>
      error (useSessionManager_updateState updates outcome h) = error h) \<and>
   (outcome = Some e \<longrightarrow>
      error (useSessionManager_updateState updates outcome h) = Some (''Failed to save: '' @ errorMessage e) \<and>
      localStorage (useSessionManager_updateState updates outcome h) = localStorage h)"
  by (cases outcome) (simp_all add: useSessionManager_updateState_def Let_def fmlookup_spread)

theorem local_write_merges_witness:
  "fmlookup (state (useSessionManager_updateState (fmap_of_list [(''activeTab'', JStr ''table'')])
       (Some (ErrorObject ''QuotaExceededError'')) exampleHook)) ''activeTab'' = Some (JStr ''table'') \<and>
   fmlookup (state (useSessionManager_updateState (fmap_of_list [(''activeTab'', JStr ''table'')])
       (Some (ErrorObject ''QuotaExceededError'')) exampleHook)) ''excelToggle'' = Some (JBool False) \<and>
   error (useSessionManager_updateState (fmap_of_list [(''activeTab'', JStr ''table'')])
       (Some (ErrorObject ''QuotaExceededError'')) exampleHook) = Some ''Failed to save: QuotaExceededError'' \<and>
   localStorage (useSessionManager_updateState (fmap_of_list [(''activeTab'', JStr ''table'')])
       (Some (ErrorObject ''QuotaExceededError'')) exampleHook) = None \<and>
   localStorage (useSessionManager_updateState (fmap_of_list [(''activeTab'', JStr ''table'')]) None exampleHook) =
     Some (state (useSessionManager_updateState (fmap_of_list [(''activeTab'', JStr ''table'')]) None exampleHook))"
proof -
  let ?u = "fmap_of_list [(''activeTab'', JStr ''table'')]"
  let ?e = "ErrorObject ''QuotaExceededError''"
  note a = local_write_merges [of ?u "Some ?e" exampleHook "''activeTab''" ?e]
  note b = local_write_merges [of ?u "Some ?e" exampleHook "''excelToggle''" ?e]
  note c = local_write_merges [of ?u None exampleHook "''activeTab''" ?e]
  have l: "localStorage exampleHook = None" and s: "fmlookup (state exampleHook) ''excelToggle'' = Some (JBool False)"
    by (simp_all add: exampleHook_def)
  show ?thesis
    using a [THEN conjunct1] b [THEN conjunct1] a [THEN conjunct2, THEN conjunct2]
      c [THEN conjunct2, THEN conjunct1] l s
    by (simp add: errorMessage_def)
qed

section \<open>C9: the invariant of the store\<close>

lemma list_all_map_entry:
  "list_all P al \<Longrightarrow> (\<And>v. P (k, v) \<Longrightarrow> P (k, f v)) \<Longrightarrow> list_all P (AList.map_entry k f al)"
  by (induction al) auto

lemma list_all_update:
  "list_all P al \<Longrightarrow> P (k, v) \<Longrightarrow> list_all P (AList.update k v al)"
  by (induction al) auto

lemma list_all_delete:
  "list_all P al \<Longrightarrow> list_all P (AList.delete k al)"
  by (induction al) auto

lemma map_fst_map_entry: "map fst (AList.map_entry k f al) = map fst al"
  by (induction al) auto

text \<open>
  The invariant is proved together with \<open>createdInPast\<close>: with a clock that does not run
  backwards, a record touched later is touched at or after its creation.
\<close>

lemma inv_tick:
  assumes "mono (clock sv)" and "storeInv sv \<and> createdInPast sv"
  shows "storeInv (snd (newDate sv)) \<and> createdInPast (snd (newDate sv))"
proof -
  have "clock sv (ticks sv) \<le> clock sv (Suc (ticks sv))"
    using assms(1) by (simp add: monoD)
  then show ?thesis
    using assms(2)
    by (auto simp: storeInv_def createdInPast_def newDate_def list_all_iff)
qed

lemma inv_mutate:
  assumes "storeInv sv \<and> createdInPast sv"
    and "\<And>s. createdAt s \<le> lastActivity s \<Longrightarrow> createdAt s \<le> clock sv (ticks sv) \<Longrightarrow>
           sessionId (f s) = sessionId s \<and> createdAt (f s) = createdAt s \<and>
           createdAt (f s) \<le> lastActivity (f s)"
  shows "storeInv (mutate sid f sv) \<and> createdInPast (mutate sid f sv)"
proof -
  let ?P = "\<lambda>(k, s). sessionId s = k \<and> createdAt s \<le> lastActivity s \<and> createdAt s \<le> clock sv (ticks sv)"
  have "list_all ?P (sessions sv)"
    using assms(1) by (auto simp: storeInv_def createdInPast_def list_all_iff)
  then have "list_all ?P (AList.map_entry sid f (sessions sv))"
    by (rule list_all_map_entry) (use assms(2) in \<open>auto simp: split_beta; metis\<close>)
  then show ?thesis
    using assms(1)
    by (auto simp: storeInv_def createdInPast_def mutate_def list_all_iff map_fst_map_entry)
qed

lemma inv_updateLastActivity:
  assumes "mono (clock sv)" and "storeInv sv \<and> createdInPast sv"
  shows "storeInv (updateLastActivity sid sv) \<and> createdInPast (updateLastActivity sid sv)"
proof -
  have le: "clock sv (ticks sv) \<le> clock sv (Suc (ticks sv))"
    using assms(1) by (simp add: monoD)
  let ?P = "\<lambda>(k, s). sessionId s = k \<and> createdAt s \<le> lastActivity s \<and> createdAt s \<le> clock sv (ticks sv)"
  have "list_all ?P (sessions sv)"
    using assms(2) by (auto simp: storeInv_def createdInPast_def list_all_iff)
  then have "list_all ?P (AList.map_entry sid (\<lambda>s. s\<lparr>lastActivity := clock sv (ticks sv)\<rparr>) (sessions sv))"
    by (rule list_all_map_entry) auto
  then show ?thesis
    using assms(2) le
    by (auto simp: storeInv_def createdInPast_def updateLastActivity_def newDate_def mutate_def
        list_all_iff map_fst_map_entry)
qed

lemma inv_delete:
  assumes "storeInv sv \<and> createdInPast sv"
  shows "storeInv (sessionsDelete sid sv) \<and> createdInPast (sessionsDelete sid sv)"
  using assms
  by (auto simp: storeInv_def createdInPast_def sessionsDelete_def list_all_delete distinct_delete)

lemma inv_cleanupLoop:
  "storeInv sv \<and> createdInPast sv \<Longrightarrow>
   storeInv (cleanupLoop t es sv) \<and> createdInPast (cleanupLoop t es sv)"
proof (induction t es sv rule: cleanupLoop.induct)
  case (1 t sv)
  then show ?case by simp
next
  case (2 t sid s rest sv)
  then show ?case using inv_delete by simp
qed

lemma inv_cleanupSessions:
  assumes "mono (clock sv)" and "storeInv sv \<and> createdInPast sv"
  shows "storeInv (cleanupSessions sv) \<and> createdInPast (cleanupSessions sv)"
  using inv_cleanupLoop [OF inv_tick [OF assms]]
  by (simp add: cleanupSessions_def split_beta)

lemma mono_two_ticks:
  "mono (c :: nat \<Rightarrow> int) \<Longrightarrow> c n \<le> c (Suc n) \<and> c n \<le> c (Suc (Suc n))"
  by (simp add: monoD)

lemma inv_init:
  assumes "mono (clock sv)" and "storeInv sv \<and> createdInPast sv"
  shows "storeInv (snd (initHandler uuid sv)) \<and> createdInPast (snd (initHandler uuid sv))"
proof -
  have le: "clock sv (ticks sv) \<le> clock sv (Suc (ticks sv))"
    "clock sv (ticks sv) \<le> clock sv (Suc (Suc (ticks sv)))"
    using mono_two_ticks [OF assms(1)] by auto
  let ?n = "\<lparr>sessionId = uuid, createdAt = clock sv (ticks sv), lastActivity = clock sv (Suc (ticks sv)),
           uiState = defaultUiState, workspaceData = defaultWorkspaceData\<rparr>"
  let ?P = "\<lambda>(k, s). sessionId s = k \<and> createdAt s \<le> lastActivity s \<and>
              createdAt s \<le> clock sv (Suc (Suc (ticks sv)))"
  have "list_all ?P (sessions sv)"
    using assms(2) le by (auto simp: storeInv_def createdInPast_def list_all_iff)
  then have "list_all ?P (AList.update uuid ?n (sessions sv))"
    by (rule list_all_update) (use le in simp)
  moreover have "distinct (map fst (AList.update uuid ?n (sessions sv)))"
    using assms(2) by (simp add: storeInv_def distinct_update)
  ultimately show ?thesis
    by (auto simp: initHandler_def newUserSession_def newDate_def sessionsSet_def storeInv_def
        createdInPast_def list_all_iff)
qed

lemma inv_updateUiState:
  assumes "mono (clock sv)" and "storeInv sv \<and> createdInPast sv"
  shows "storeInv (updateUiState sid u sv) \<and> createdInPast (updateUiState sid u sv)"
  unfolding updateUiState_def
  by (rule inv_updateLastActivity) (use assms in \<open>simp_all add: inv_mutate\<close>)

lemma inv_updateWorkspaceData:
  assumes "mono (clock sv)" and "storeInv sv \<and> createdInPast sv"
  shows "storeInv (updateWorkspaceData sid w sv) \<and> createdInPast (updateWorkspaceData sid w sv)"
  unfolding updateWorkspaceData_def
  by (rule inv_updateLastActivity) (use assms in \<open>simp_all add: inv_mutate\<close>)

lemma inv_resetSession:
  assumes "mono (clock sv)" and "storeInv sv \<and> createdInPast sv"
  shows "storeInv (resetSession sid sv) \<and> createdInPast (resetSession sid sv)"
  unfolding resetSession_def
  by (rule inv_updateLastActivity) (use assms in \<open>simp_all add: inv_mutate\<close>)

lemma clock_updateUiState [simp]: "clock (updateUiState sid u sv) = clock sv"
  by (simp add: updateUiState_def)

lemma clock_updateWorkspaceData [simp]: "clock (updateWorkspaceData sid w sv) = clock sv"
  by (simp add: updateWorkspaceData_def)

lemma clock_resetSession [simp]: "clock (resetSession sid sv) = clock sv"
  by (simp add: resetSession_def)

lemma inv_get:
  assumes "mono (clock sv)" and "storeInv sv \<and> createdInPast sv"
  shows "storeInv (snd (getHandler sid sv)) \<and> createdInPast (snd (getHandler sid sv))"
  using assms inv_updateLastActivity [OF assms]
  by (auto simp: getHandler_def Let_def split: option.splits)

lemma inv_put:
  assumes "mono (clock sv)" and "storeInv sv \<and> createdInPast sv"
  shows "storeInv (snd (putHandler sid body sv)) \<and> createdInPast (snd (putHandler sid body sv))"
proof -
  let ?ui = "getProp body ''uiState''" and ?wd = "getProp body ''workspaceData''"
  let ?sv1 = "if \<not> isUndefined ?ui then updateUiState sid ?ui sv else sv"
  have 1: "storeInv ?sv1 \<and> createdInPast ?sv1" and m1: "mono (clock ?sv1)"
    using assms inv_updateUiState [OF assms] by auto
  let ?sv2 = "if \<not> isUndefined ?wd then updateWorkspaceData sid ?wd ?sv1 else ?sv1"
  have 2: "storeInv ?sv2 \<and> createdInPast ?sv2"
    using 1 inv_updateWorkspaceData [OF m1 1] by auto
  show ?thesis
    using assms(2) 1 2
    by (auto simp: putHandler_def Let_def split: option.splits if_splits)
qed

lemma inv_reset:
  assumes "mono (clock sv)" and "storeInv sv \<and> createdInPast sv"
  shows "storeInv (snd (resetHandler sid sv)) \<and> createdInPast (snd (resetHandler sid sv))"
  using assms inv_resetSession [OF assms]
  by (auto simp: resetHandler_def Let_def split: option.splits)

lemma inv_uploadHandler:
  assumes "mono (clock sv)" and "storeInv sv \<and> createdInPast sv"
  shows "storeInv (snd (uploadHandler sid reqFile sv)) \<and> createdInPast (snd (uploadHandler sid reqFile sv))"
proof -
  let ?sv1 = "snd (newDate sv)"
  have 1: "storeInv ?sv1 \<and> createdInPast ?sv1" and m1: "mono (clock ?sv1)"
    using assms inv_tick [OF assms] by auto
  have 2: "storeInv (updateLastActivity sid (mutate sid f ?sv1)) \<and>
           createdInPast (updateLastActivity sid (mutate sid f ?sv1))"
    if "\<And>s. sessionId (f s) = sessionId s \<and> createdAt (f s) = createdAt s \<and> lastActivity (f s) = lastActivity s"
    for f
    by (rule inv_updateLastActivity) (use m1 1 that in \<open>simp_all add: inv_mutate\<close>)
  show ?thesis
    using assms(2) 1
    by (auto simp: uploadHandler_def Let_def split_beta 2 split: option.splits json.splits)
qed

lemma inv_uploadRoute:
  assumes "mono (clock sv)" and "storeInv sv \<and> createdInPast sv"
  shows "storeInv (snd (uploadRoute sid part sv)) \<and> createdInPast (snd (uploadRoute sid part sv))"
  using assms inv_uploadHandler [OF assms]
  by (auto simp: uploadRoute_def split: sum.splits)

lemma inv_health:
  assumes "mono (clock sv)" and "storeInv sv \<and> createdInPast sv"
  shows "storeInv (snd (healthHandler sv)) \<and> createdInPast (snd (healthHandler sv))"
  using inv_tick [OF assms] by (simp add: healthHandler_def split_beta)

lemma inv_step:
  assumes "mono (clock sv)" and "storeInv sv \<and> createdInPast sv"
  shows "storeInv (step sv r) \<and> createdInPast (step sv r)"
  using inv_init [OF assms] inv_get [OF assms] inv_put [OF assms] inv_reset [OF assms]
    inv_uploadRoute [OF assms] inv_cleanupSessions [OF assms] inv_health [OF assms]
  by (cases r) (simp_all add: step_def split_beta)

lemma clock_step [simp]: "clock (step sv r) = clock sv"
proof (cases r)
  case (Init uuid)
  then show ?thesis
    by (simp add: step_def initHandler_def newUserSession_def newDate_def sessionsSet_def)
next
  case (Get sid)
  then show ?thesis by (simp add: step_def getHandler_def Let_def split: option.splits)
next
  case (Put sid body)
  then show ?thesis by (simp add: step_def putHandler_def Let_def split: option.splits)
next
  case (Reset sid)
  then show ?thesis by (simp add: step_def resetHandler_def Let_def split: option.splits)
next
  case (Upload sid part)
  then show ?thesis
    by (simp add: step_def uploadRoute_def uploadHandler_def newDate_def Let_def
        split: option.splits sum.splits json.splits)
next
  case Sweep
  then show ?thesis by (simp add: step_def cleanupSessions_def newDate_def)
next
  case Health
  then show ?thesis by (simp add: step_def healthHandler_def newDate_def)
qed

lemma clock_run [simp]: "clock (run sv rs) = clock sv"
  by (induction rs arbitrary: sv) (simp_all add: run_def)

lemma inv_run:
  assumes "mono (clock sv)" and "storeInv sv \<and> createdInPast sv"
  shows "storeInv (run sv rs) \<and> createdInPast (run sv rs)"
  using assms
proof (induction rs arbitrary: sv)
  case Nil
  then show ?case by (simp add: run_def)
next
  case (Cons r rs)
  have "storeInv (step sv r) \<and> createdInPast (step sv r)"
    using Cons.prems by (rule inv_step)
  moreover have "mono (clock (step sv r))" using Cons.prems(1) by simp
  ultimately have "storeInv (run (step sv r) rs) \<and> createdInPast (run (step sv r) rs)"
    by (rule Cons.IH [rotated])
  then show ?case by (simp add: run_def)
qed

lemma inv_start: "storeInv (startServer c) \<and> createdInPast (startServer c)"
  by (simp add: storeInv_def createdInPast_def startServer_def)

text \<open>No operation but the creation of a session puts a record under a key or changes its identity.\<close>

lemma keepsIdentity_refl: "keepsIdentity sv sv"
  by (simp add: keepsIdentity_def)

lemma keepsIdentity_trans:
  "keepsIdentity a b \<Longrightarrow> keepsIdentity b c \<Longrightarrow> keepsIdentity a c"
  unfolding keepsIdentity_def by (metis (no_types, lifting))

lemma keepsIdentity_newDate: "keepsIdentity sv (snd (newDate sv))"
  by (simp add: keepsIdentity_def sessionsGet_def)

lemma keepsIdentity_mutate:
  assumes "\<And>s. sessionId (f s) = sessionId s \<and> createdAt (f s) = createdAt s"
  shows "keepsIdentity sv (mutate sid f sv)"
  using assms by (auto simp: keepsIdentity_def split: if_splits)

lemma keepsIdentity_updateLastActivity: "keepsIdentity sv (updateLastActivity sid sv)"
  by (auto simp: keepsIdentity_def split: if_splits)

lemma keepsIdentity_delete: "keepsIdentity sv (sessionsDelete sid sv)"
  by (auto simp: keepsIdentity_def sessionsGet_def sessionsDelete_def delete_conv' split: if_splits)

lemma keepsIdentity_cleanupLoop: "keepsIdentity sv (cleanupLoop t es sv)"
proof (induction t es sv rule: cleanupLoop.induct)
  case (1 t sv)
  then show ?case by (simp add: keepsIdentity_refl)
next
  case (2 t sid s rest sv)
  then show ?case
    using keepsIdentity_trans [OF keepsIdentity_delete] by auto
qed

lemma keepsIdentity_cleanupSessions: "keepsIdentity sv (cleanupSessions sv)"
  using keepsIdentity_trans [OF keepsIdentity_newDate keepsIdentity_cleanupLoop]
  by (simp add: cleanupSessions_def split_beta)

lemma keepsIdentity_updateUiState: "keepsIdentity sv (updateUiState sid u sv)"
  unfolding updateUiState_def
  by (rule keepsIdentity_trans [OF keepsIdentity_mutate keepsIdentity_updateLastActivity]) simp

lemma keepsIdentity_updateWorkspaceData: "keepsIdentity sv (updateWorkspaceData sid w sv)"
  unfolding updateWorkspaceData_def
  by (rule keepsIdentity_trans [OF keepsIdentity_mutate keepsIdentity_updateLastActivity]) simp

lemma keepsIdentity_resetSession: "keepsIdentity sv (resetSession sid sv)"
  unfolding resetSession_def
  by (rule keepsIdentity_trans [OF keepsIdentity_mutate keepsIdentity_updateLastActivity]) simp

lemma keepsIdentity_get: "keepsIdentity sv (snd (getHandler sid sv))"
  by (auto simp: getHandler_def Let_def keepsIdentity_refl keepsIdentity_updateLastActivity
      split: option.splits)

lemma keepsIdentity_put: "keepsIdentity sv (snd (putHandler sid body sv))"
  using keepsIdentity_trans [OF keepsIdentity_updateUiState keepsIdentity_updateWorkspaceData]
  by (auto simp: putHandler_def Let_def keepsIdentity_refl keepsIdentity_updateUiState
      keepsIdentity_updateWorkspaceData split: option.splits)

lemma keepsIdentity_reset: "keepsIdentity sv (snd (resetHandler sid sv))"
  by (auto simp: resetHandler_def Let_def keepsIdentity_refl keepsIdentity_resetSession
      split: option.splits)

lemma keepsIdentity_uploadHandler: "keepsIdentity sv (snd (uploadHandler sid reqFile sv))"
proof -
  have "keepsIdentity sv (updateLastActivity sid (mutate sid f (snd (newDate sv))))"
    if "\<And>s. sessionId (f s) = sessionId s \<and> createdAt (f s) = createdAt s" for f
    using keepsIdentity_trans [OF keepsIdentity_newDate
        keepsIdentity_trans [OF keepsIdentity_mutate [OF that] keepsIdentity_updateLastActivity]]
    by simp
  then show ?thesis
    by (auto simp: uploadHandler_def Let_def split_beta keepsIdentity_refl keepsIdentity_newDate
        split: option.splits json.splits)
qed

lemma keepsIdentity_uploadRoute: "keepsIdentity sv (snd (uploadRoute sid part sv))"
  by (auto simp: uploadRoute_def keepsIdentity_refl keepsIdentity_uploadHandler split: sum.splits)

lemma keepsIdentity_health: "keepsIdentity sv (snd (healthHandler sv))"
  by (simp add: healthHandler_def split_beta keepsIdentity_newDate)

lemma init_other_keys:
  "k \<noteq> uuid \<Longrightarrow> sessionsGet (snd (initHandler uuid sv)) k = sessionsGet sv k"
  by (simp add: initHandler_def newUserSession_def newDate_def sessionsSet_def sessionsGet_def
      update_conv')

lemma step_identity:
  assumes "sessionsGet (step sv r) k = Some s'" and "r \<noteq> Init k"
  shows "\<exists>s. sessionsGet sv k = Some s \<and> sessionId s' = sessionId s \<and> createdAt s' = createdAt s"
proof (cases r)
  case (Init uuid)
  then show ?thesis using assms by (simp add: step_def split_beta init_other_keys)
next
  case (Get sid)
  then show ?thesis using assms keepsIdentity_get [of sv sid]
    by (simp add: step_def split_beta keepsIdentity_def)
next
  case (Put sid body)
  then show ?thesis using assms keepsIdentity_put [of sv sid body]
    by (simp add: step_def split_beta keepsIdentity_def)
next
  case (Reset sid)
  then show ?thesis using assms keepsIdentity_reset [of sv sid]
    by (simp add: step_def split_beta keepsIdentity_def)
next
  case (Upload sid part)
  then show ?thesis using assms keepsIdentity_uploadRoute [of sv sid part]
    by (simp add: step_def split_beta keepsIdentity_def)
next
  case Sweep
  then show ?thesis using assms keepsIdentity_cleanupSessions [of sv]
    by (simp add: step_def keepsIdentity_def)
next
  case Health
  then show ?thesis using assms keepsIdentity_health [of sv]
    by (simp add: step_def split_beta keepsIdentity_def)
qed

text \<open>
  Whatever the clock reads, the keys of the store stay distinct and every record stays
  under its own \<open>sessionId\<close>.
\<close>

lemma uniq_tick: "uniqueIds (snd (newDate sv)) = uniqueIds sv"
  by (simp add: uniqueIds_def)

lemma uniq_mutate:
  assumes "uniqueIds sv" and "\<And>s. sessionId (f s) = sessionId s"
  shows "uniqueIds (mutate sid f sv)"
proof -
  have "list_all (\<lambda>(k, s). sessionId s = k) (AList.map_entry sid f (sessions sv))"
    by (rule list_all_map_entry) (use assms in \<open>auto simp: uniqueIds_def\<close>)
  then show ?thesis
    using assms(1) by (simp add: uniqueIds_def mutate_def map_fst_map_entry)
qed

lemma uniq_updateLastActivity: "uniqueIds sv \<Longrightarrow> uniqueIds (updateLastActivity sid sv)"
  unfolding updateLastActivity_def split_beta Let_def
  by (rule uniq_mutate) (simp_all add: uniq_tick)

lemma uniq_delete: "uniqueIds sv \<Longrightarrow> uniqueIds (sessionsDelete sid sv)"
  by (simp add: uniqueIds_def sessionsDelete_def list_all_delete distinct_delete)

lemma uniq_cleanupLoop: "uniqueIds sv \<Longrightarrow> uniqueIds (cleanupLoop t es sv)"
  by (induction t es sv rule: cleanupLoop.induct) (simp_all add: uniq_delete)

lemma uniq_cleanupSessions: "uniqueIds sv \<Longrightarrow> uniqueIds (cleanupSessions sv)"
  by (simp add: cleanupSessions_def split_beta uniq_cleanupLoop uniq_tick)

lemma uniq_init: "uniqueIds sv \<Longrightarrow> uniqueIds (snd (initHandler uuid sv))"
  by (simp add: uniqueIds_def initHandler_def newUserSession_def newDate_def sessionsSet_def
      distinct_update list_all_update)

lemma uniq_updateUiState: "uniqueIds sv \<Longrightarrow> uniqueIds (updateUiState sid u sv)"
  by (simp add: updateUiState_def uniq_updateLastActivity uniq_mutate)

lemma uniq_updateWorkspaceData: "uniqueIds sv \<Longrightarrow> uniqueIds (updateWorkspaceData sid w sv)"
  by (simp add: updateWorkspaceData_def uniq_updateLastActivity uniq_mutate)

lemma uniq_resetSession: "uniqueIds sv \<Longrightarrow> uniqueIds (resetSession sid sv)"
  by (simp add: resetSession_def uniq_updateLastActivity uniq_mutate)

lemma uniq_get: "uniqueIds sv \<Longrightarrow> uniqueIds (snd (getHandler sid sv))"
  by (auto simp: getHandler_def Let_def uniq_updateLastActivity split: option.splits)

lemma uniq_put: "uniqueIds sv \<Longrightarrow> uniqueIds (snd (putHandler sid body sv))"
  by (auto simp: putHandler_def Let_def uniq_updateUiState uniq_updateWorkspaceData
      split: option.splits)

lemma uniq_reset: "uniqueIds sv \<Longrightarrow> uniqueIds (snd (resetHandler sid sv))"
  by (auto simp: resetHandler_def Let_def uniq_resetSession split: option.splits)

lemma uniq_uploadHandler: "uniqueIds sv \<Longrightarrow> uniqueIds (snd (uploadHandler sid reqFile sv))"
  by (auto simp: uploadHandler_def Let_def split_beta uniq_tick uniq_updateLastActivity uniq_mutate
      split: option.splits json.splits)

lemma uniq_uploadRoute: "uniqueIds sv \<Longrightarrow> uniqueIds (snd (uploadRoute sid part sv))"
  by (auto simp: uploadRoute_def uniq_uploadHandler split: sum.splits)

lemma uniq_health: "uniqueIds sv \<Longrightarrow> uniqueIds (snd (healthHandler sv))"
  by (simp add: healthHandler_def split_beta uniq_tick)

lemma uniq_step: "uniqueIds sv \<Longrightarrow> uniqueIds (step sv r)"
  by (cases r)
    (simp_all add: step_def split_beta uniq_init uniq_get uniq_put uniq_reset uniq_uploadRoute
      uniq_cleanupSessions uniq_health)

lemma uniq_run: "uniqueIds sv \<Longrightarrow> uniqueIds (run sv rs)"
  by (induction rs arbitrary: sv) (simp_all add: run_def uniq_step)

lemma uniq_start: "uniqueIds (startServer c)"
  by (simp add: uniqueIds_def startServer_def)


text \<open>
  C9. After every sequence of create, get, updateState, reset, upload, sweep and health
  requests from the empty store, whatever the clock reads: the keys of the store are
  distinct and every record is stored under its own \<open>sessionId\<close>; and a request other than
  the creation of a session with the id \<open>k\<close> leaves the \<open>sessionId\<close> and the \<open>createdAt\<close> of
  the record under \<open>k\<close> as they were. When the readings of the system clock never decrease,
  \<open>lastActivity \<ge> createdAt\<close> holds of every record as well.
\<close>

theorem store_invariant:
  "uniqueIds (run (startServer c) rs) \<and>
   (mono c \<longrightarrow> storeInv (run (startServer c) rs)) \<and>
   (sessionsGet (run (startServer c) rs) k = Some s \<and>
    sessionsGet (step (run (startServer c) rs) r) k = Some s' \<and> r \<noteq> Init k \<longrightarrow>
    sessionId s' = sessionId s \<and> createdAt s' = createdAt s)"
proof (intro conjI impI)
  show "uniqueIds (run (startServer c) rs)"
    by (rule uniq_run [OF uniq_start])
next
  assume "mono c"
  then have "mono (clock (startServer c))" by (simp add: startServer_def)
  then show "storeInv (run (startServer c) rs)"
    using inv_run [OF _ inv_start] by blast
next
  assume a: "sessionsGet (run (startServer c) rs) k = Some s \<and>
    sessionsGet (step (run (startServer c) rs) r) k = Some s' \<and> r \<noteq> Init k"
  then obtain s0 where "sessionsGet (run (startServer c) rs) k = Some s0"
    and "sessionId s' = sessionId s0" and "createdAt s' = createdAt s0"
    using step_identity [of "run (startServer c) rs" r k s'] by blast
  with a show "sessionId s' = sessionId s" and "createdAt s' = createdAt s" by simp_all
qed


text \<open>
  The claim as the specification states it holds \<open>lastActivity \<ge> createdAt\<close> of every
  reachable state. Both are readings of the wall clock (\<open>new Date()\<close>): when the clock is
  set back between the creation of a session and a later \<open>get\<close>, the record is touched
  with a time before its creation.
\<close>

theorem stepped_back_clock_breaks_timestamp_order:
  "\<not> mono steppedBackClock \<and>
   sessionsGet (run (startServer steppedBackClock) [Init exampleId, Get exampleId]) exampleId =
     Some \<lparr>sessionId = exampleId, createdAt = 2000, lastActivity = 1000,
           uiState = defaultUiState, workspaceData = defaultWorkspaceData\<rparr> \<and>
   \<not> storeInv (run (startServer steppedBackClock) [Init exampleId, Get exampleId])"
proof -
  have n: "\<not> mono steppedBackClock"
  proof
    assume "mono steppedBackClock"
    then have "steppedBackClock 0 \<le> steppedBackClock 2" by (rule monoD) simp
    then show False by (simp add: steppedBackClock_def)
  qed
  have r: "sessions (run (startServer steppedBackClock) [Init exampleId, Get exampleId]) =
      [(exampleId, \<lparr>sessionId = exampleId, createdAt = 2000, lastActivity = 1000,
           uiState = defaultUiState, workspaceData = defaultWorkspaceData\<rparr>)]"
    by (simp add: run_def step_def startServer_def initHandler_def newUserSession_def newDate_def
        sessionsSet_def getHandler_def exampleId_valid sessionsGet_def updateLastActivity_def mutate_def
        Let_def steppedBackClock_def)
  show ?thesis
    using n by (simp add: r sessionsGet_def storeInv_def)
qed


theorem store_invariant_witness:
  "mono int \<and>
   sessionsGet (run (startServer int) [Init exampleId, Get exampleId]) exampleId =
     Some \<lparr>sessionId = exampleId, createdAt = 0, lastActivity = 2,
           uiState = defaultUiState, workspaceData = defaultWorkspaceData\<rparr> \<and>
   sessionsGet (step (run (startServer int) [Init exampleId, Get exampleId]) (Reset exampleId)) exampleId =
     Some \<lparr>sessionId = exampleId, createdAt = 0, lastActivity = 3,
           uiState = defaultUiState, workspaceData = defaultWorkspaceData\<rparr> \<and>
   Reset exampleId \<noteq> Init exampleId \<and>
   storeInv (run (startServer int) [Init exampleId, Get exampleId]) \<and>
   uniqueIds (run (startServer steppedBackClock) [Init exampleId, Get exampleId])"
proof -
  have m: "mono int" by (simp add: mono_def)
  have r: "run (startServer int) [Init exampleId, Get exampleId] =
      \<lparr>sessions = [(exampleId, \<lparr>sessionId = exampleId, createdAt = 0, lastActivity = 2,
           uiState = defaultUiState, workspaceData = defaultWorkspaceData\<rparr>)], clock = int, ticks = 3\<rparr>"
    by (simp add: run_def step_def startServer_def initHandler_def newUserSession_def newDate_def
        sessionsSet_def getHandler_def exampleId_valid sessionsGet_def updateLastActivity_def mutate_def
        Let_def numeral_3_eq_3)
  have s: "sessionsGet (step (run (startServer int) [Init exampleId, Get exampleId]) (Reset exampleId)) exampleId =
     Some \<lparr>sessionId = exampleId, createdAt = 0, lastActivity = 3,
           uiState = defaultUiState, workspaceData = defaultWorkspaceData\<rparr>"
    unfolding r
    by (simp add: step_def resetHandler_def exampleId_valid sessionsGet_def resetSession_def
        updateLastActivity_def mutate_def newDate_def Let_def)
  note c = store_invariant [of int "[Init exampleId, Get exampleId]" exampleId
        "\<lparr>sessionId = exampleId, createdAt = 0, lastActivity = 2,
           uiState = defaultUiState, workspaceData = defaultWorkspaceData\<rparr>"
        "Reset exampleId"
        "\<lparr>sessionId = exampleId, createdAt = 0, lastActivity = 3,
           uiState = defaultUiState, workspaceData = defaultWorkspaceData\<rparr>"]
  have i: "storeInv (run (startServer int) [Init exampleId, Get exampleId])"
    using c [THEN conjunct2, THEN conjunct1] m by blast
  have u: "uniqueIds (run (startServer steppedBackClock) [Init exampleId, Get exampleId])"
    by (rule store_invariant [of steppedBackClock "[Init exampleId, Get exampleId]", THEN conjunct1])
  show ?thesis
    using m s i u by (simp add: r sessionsGet_def)
qed

section \<open>C2: the debounced push\<close>

lemma exampleId_nonempty: "exampleId \<noteq> []"
  by (simp add: exampleId_def)

text \<open>While no pending timeout is due, passing time only moves the clock.\<close>

lemma advanceTo_quiet:
  assumes "\<forall>(j, d) \<in> set (timeouts b). t < d"
  shows "advanceTo t (m, b) = (m, b\<lparr>now := max (now b) t\<rparr>)"
proof -
  have "filter (\<lambda>(j, due). due \<le> t) (timeouts b) = []"
    using assms by (auto simp: filter_empty_conv)
  then show ?thesis by (simp add: advanceTo_def)
qed

text \<open>
  One write of an initialised manager, when the only pending timeout (if any) is the one
  the manager remembers and is not yet due: the state is merged, the pending timeout is
  cleared and a new one is set, due 500 after the write.
\<close>

lemma write_step:
  assumes "isInitialized m" and "now b \<le> t"
    and "\<forall>(j, d) \<in> set (timeouts b). t < d \<and> syncTimeout m = Some j"
  shows "SessionManager_updateState p (advanceTo t (m, b)) =
     (m\<lparr>mgrState := spread (mgrState m) p, syncTimeout := Some (nextHandle b)\<rparr>,
      b\<lparr>now := t, timeouts := [(nextHandle b, t + 500)], nextHandle := Suc (nextHandle b)\<rparr>)"
proof -
  have q: "\<forall>(j, d) \<in> set (timeouts b). t < d" using assms(3) by auto
  have c: "filter (\<lambda>(j, due). j \<noteq> i) (timeouts b) = []" if "syncTimeout m = Some i" for i
    using assms(3) that by (auto simp: filter_empty_conv)
  have e: "timeouts b = []" if "syncTimeout m = None"
    using assms(3) that by (cases "timeouts b") auto
  show ?thesis
    unfolding advanceTo_quiet [OF q]
    using assms(1,2) c e
    by (cases "syncTimeout m")
      (simp_all add: SessionManager_updateState_def debouncedSync_def clearTimeout_def setTimeout_def
        Let_def max_def)
qed

lemma burst:
  assumes "isInitialized m" and "now b \<le> t"
    and "\<forall>(j, d) \<in> set (timeouts b). t < d \<and> syncTimeout m = Some j"
    and "paced t rest"
  shows "\<exists>m' b' j. writes ((t, p) # rest) (m, b) = (m', b') \<and> isInitialized m' \<and>
           mgrSessionId m' = mgrSessionId m \<and>
           mgrState m' = foldl spread (mgrState m) (p # map snd rest) \<and>
           sent b' = sent b \<and> now b' = fst (last ((t, p) # rest)) \<and>
           timeouts b' = [(j, now b' + 500)] \<and> syncTimeout m' = Some j"
  using assms
proof (induction rest arbitrary: m b t p)
  case Nil
  show ?case
    using Nil.prems(1) write_step [OF Nil.prems(1,2,3), of p] by simp
next
  case (Cons w rest)
  obtain t' p' where w: "w = (t', p')" by (cases w)
  let ?m1 = "m\<lparr>mgrState := spread (mgrState m) p, syncTimeout := Some (nextHandle b)\<rparr>"
  let ?b1 = "b\<lparr>now := t, timeouts := [(nextHandle b, t + 500)], nextHandle := Suc (nextHandle b)\<rparr>"
  have step: "SessionManager_updateState p (advanceTo t (m, b)) = (?m1, ?b1)"
    using write_step [OF Cons.prems(1,2,3), of p] .
  have "\<exists>m' b' j. writes ((t', p') # rest) (?m1, ?b1) = (m', b') \<and> isInitialized m' \<and>
           mgrSessionId m' = mgrSessionId ?m1 \<and>
           mgrState m' = foldl spread (mgrState ?m1) (p' # map snd rest) \<and>
           sent b' = sent ?b1 \<and> now b' = fst (last ((t', p') # rest)) \<and>
           timeouts b' = [(j, now b' + 500)] \<and> syncTimeout m' = Some j"
    by (rule Cons.IH) (use Cons.prems w in auto)
  then show ?case
    using step w by (simp del: writes.simps(2) add: writes.simps(2) [of t p])
qed

text \<open>The pending push fires once its time has come and sends the state the manager then has.\<close>

lemma flush:
  assumes "timeouts b = [(j, d)]" and "d \<le> T" and "now b \<le> d" and "truthySessionId m = Some sid"
  shows "advanceTo T (m, b) =
     (m, b\<lparr>timeouts := [], now := T, sent := sent b @ [(d, PutState sid (mgrState m))]\<rparr>)"
  using assms by (simp add: advanceTo_def syncToServer_def fetch_def max_def)

text \<open>
  C2. For a manager that is initialised and holds a session id, and a sequence of writes
  \<open>(t, p) # rest\<close> each made less than 500 time units after the one before, the first while
  no push of an earlier write is due: no request is sent during the sequence; after it
  exactly one timeout is pending, due 500 after the last write (each write has cleared the
  pending one and set a new one); and when that time has passed exactly one request has
  been sent, at that time, carrying the state after the last write.
\<close>

theorem debounce_burst_single_push:
  assumes "isInitialized m" and "mgrSessionId m = Some sid" and "sid \<noteq> []"
    and "now b \<le> t"
    and "\<forall>(j, d) \<in> set (timeouts b). t < d \<and> syncTimeout m = Some j"
    and "paced t rest"
    and "fst (last ((t, p) # rest)) + 500 \<le> T"
  shows "sent (snd (writes ((t, p) # rest) (m, b))) = sent b \<and>
         map snd (timeouts (snd (writes ((t, p) # rest) (m, b)))) = [fst (last ((t, p) # rest)) + 500] \<and>
         sent (snd (advanceTo T (writes ((t, p) # rest) (m, b)))) =
           sent b @ [(fst (last ((t, p) # rest)) + 500,
                      PutState sid (foldl spread (mgrState m) (p # map snd rest)))] \<and>
         timeouts (snd (advanceTo T (writes ((t, p) # rest) (m, b)))) = []"
proof -
  obtain m' b' j where w: "writes ((t, p) # rest) (m, b) = (m', b')"
    and id: "mgrSessionId m' = mgrSessionId m"
    and st: "mgrState m' = foldl spread (mgrState m) (p # map snd rest)"
    and se: "sent b' = sent b" and n: "now b' = fst (last ((t, p) # rest))"
    and ti: "timeouts b' = [(j, now b' + 500)]"
    using burst [OF assms(1,4,5,6), of p] by blast
  have tr: "truthySessionId m' = Some sid"
    using id assms(2,3) by (simp add: truthySessionId_def)
  have f: "advanceTo T (m', b') =
     (m', b'\<lparr>timeouts := [], now := T, sent := sent b' @ [(now b' + 500, PutState sid (mgrState m'))]\<rparr>)"
    by (rule flush [OF ti _ _ tr]) (use assms(7) n in simp_all)
  show ?thesis
    unfolding w f using se n ti st by simp
qed

text \<open>
  The claim as the specification states it holds of every sequence of writes. A manager
  that is not initialised (before \<open>init\<close> has succeeded, or after it has failed) merges the
  writes into its state and schedules nothing: no push is ever sent.
\<close>

theorem uninitialised_burst_no_push:
  "paced 0 [(100, tabPatch ''pq-query'')] \<and>
   fmlookup (mgrState (fst (writes [(0, tabPatch ''table''), (100, tabPatch ''pq-query'')]
       (newSessionManager, idleBrowser)))) ''activeTab'' = Some (JStr ''pq-query'') \<and>
   timeouts (snd (writes [(0, tabPatch ''table''), (100, tabPatch ''pq-query'')]
       (newSessionManager, idleBrowser))) = [] \<and>
   sent (snd (advanceTo 5000
     (writes [(0, tabPatch ''table''), (100, tabPatch ''pq-query'')] (newSessionManager, idleBrowser)))) = []"
  by (simp add: advanceTo_def SessionManager_updateState_def newSessionManager_def idleBrowser_def Let_def
      tabPatch_def fmlookup_spread)

theorem debounce_burst_single_push_witness:
  "sent (snd (advanceTo 5000
     (writes [(100, tabPatch ''table''), (300, tabPatch ''pq-query'')]
        (SessionManager_updateState (tabPatch ''grid'') (activeManager, activeBrowser))))) =
   [(800, PutState exampleId
       (foldl spread (mgrState newSessionManager) [tabPatch ''grid'', tabPatch ''table'', tabPatch ''pq-query'']))]"
proof -
  let ?m = "fst (SessionManager_updateState (tabPatch ''grid'') (activeManager, activeBrowser))"
  let ?b = "snd (SessionManager_updateState (tabPatch ''grid'') (activeManager, activeBrowser))"
  have b: "?b = \<lparr>now = 0, timeouts = [(2, 500)], intervals = [1], nextHandle = 3,
     sessionStorage = Some exampleId, sent = []\<rparr>"
    by (simp add: SessionManager_updateState_def activeManager_def activeBrowser_def debouncedSync_def
        clearTimeout_def setTimeout_def Let_def numeral_3_eq_3 newSessionManager_def)
  have m: "?m = activeManager\<lparr>mgrState := spread (mgrState newSessionManager) (tabPatch ''grid''),
      syncTimeout := Some 2\<rparr>"
    by (simp add: SessionManager_updateState_def activeManager_def activeBrowser_def debouncedSync_def
        clearTimeout_def setTimeout_def Let_def newSessionManager_def)
  have h1: "isInitialized ?m" and h2: "mgrSessionId ?m = Some exampleId"
    and h4: "now ?b \<le> 100"
    and h5: "\<forall>(j, d) \<in> set (timeouts ?b). 100 < d \<and> syncTimeout ?m = Some j"
    and h6: "paced 100 [(300, tabPatch ''pq-query'')]"
    and h7: "fst (last ((100, tabPatch ''table'') # [(300, tabPatch ''pq-query'')])) + 500 \<le> (5000::nat)"
    unfolding m b by (simp_all add: activeManager_def)
  have sb: "sent ?b = []" unfolding b by simp
  have ms: "mgrState ?m = spread (mgrState newSessionManager) (tabPatch ''grid'')"
    unfolding m by (simp add: activeManager_def)
  have r: "sent (snd (advanceTo 5000
      (writes [(100, tabPatch ''table''), (300, tabPatch ''pq-query'')] (?m, ?b)))) =
    sent ?b @ [(800, PutState exampleId
         (foldl spread (mgrState ?m) [tabPatch ''table'', tabPatch ''pq-query'']))]"
    using debounce_burst_single_push [OF h1 h2 exampleId_nonempty h4 h5 h6 h7] by simp
  show ?thesis
    using r unfolding sb ms by simp
qed

section \<open>C3: the periodic validation\<close>

lemma init_without_remembered_id:
  assumes "sessionStorage b = None"
  shows "init rLoad rCreate (m, b) =
     (case createNewSession rCreate (m, b) of
        (created, m', b') \<Rightarrow>
          if created then (True, startPeriodicSync (m'\<lparr>isInitialized := True\<rparr>, b'))
          else (False, m', b'))"
  using assms by (simp add: init_def)

text \<open>
  C3. For a manager that holds a session id and whose validation interval is running:
  when the poll is answered with \<open>success\<close> false (the session is not found, or the id is
  refused), the manager forgets the id in memory and in \<open>sessionStorage\<close>, clears its
  interval and calls \<open>init\<close> once, which sends exactly one request to create a session;
  the new id is remembered if that succeeds, and no id otherwise. When the request itself
  fails (network failure), or the poll succeeds, nothing changes but the request sent.
\<close>

theorem validation_unsuccessful_reply_rebootstraps:
  assumes "truthySessionId m = Some sid" and "validationInterval m = Some i" and "i < nextHandle b"
  shows "validationTick (Reply False x y) rLoad rCreate (m, b) =
           snd (init rLoad rCreate
                  (m\<lparr>mgrSessionId := None, isInitialized := False\<rparr>,
                   clearInterval (Some i) ((fetch (GetSession sid) b)\<lparr>sessionStorage := None\<rparr>))) \<and>
         i \<notin> set (intervals (snd (validationTick (Reply False x y) rLoad rCreate (m, b)))) \<and>
         sent (snd (validationTick (Reply False x y) rLoad rCreate (m, b))) =
           sent b @ [(now b, GetSession sid), (now b, PostInit)] \<and>
         (rCreate = Reply True newSid ui \<longrightarrow>
            mgrSessionId (fst (validationTick (Reply False x y) rLoad rCreate (m, b))) = Some newSid \<and>
            sessionStorage (snd (validationTick (Reply False x y) rLoad rCreate (m, b))) = Some newSid \<and>
            isInitialized (fst (validationTick (Reply False x y) rLoad rCreate (m, b)))) \<and>
         ((\<forall>n u. rCreate \<noteq> Reply True n u) \<longrightarrow>
            mgrSessionId (fst (validationTick (Reply False x y) rLoad rCreate (m, b))) = None \<and>
            sessionStorage (snd (validationTick (Reply False x y) rLoad rCreate (m, b))) = None \<and>
            \<not> isInitialized (fst (validationTick (Reply False x y) rLoad rCreate (m, b)))) \<and>
         validationTick Rejected rLoad rCreate (m, b) = (m, fetch (GetSession sid) b) \<and>
         validationTick (Reply True x y) rLoad rCreate (m, b) = (m, fetch (GetSession sid) b)"
proof -
  let ?m1 = "m\<lparr>mgrSessionId := None, isInitialized := False\<rparr>"
  let ?b3 = "clearInterval (Some i) ((fetch (GetSession sid) b)\<lparr>sessionStorage := None\<rparr>)"
  have tick: "validationTick (Reply False x y) rLoad rCreate (m, b) = snd (init rLoad rCreate (?m1, ?b3))"
    using assms(1,2) by (simp add: validationTick_def Let_def)
  have st: "sessionStorage ?b3 = None"
    by (simp add: clearInterval_def fetch_def)
  have i3: "i \<notin> set (intervals ?b3)" "nextHandle ?b3 = nextHandle b"
    "sent ?b3 = sent b @ [(now b, GetSession sid)]" "now ?b3 = now b"
    by (simp_all add: clearInterval_def fetch_def)
  show ?thesis
  proof (cases rCreate)
    case Rejected
    then show ?thesis
      unfolding tick init_without_remembered_id [OF st]
      using assms(1,2) i3 st
      by (simp add: createNewSession_def Let_def fetch_def validationTick_def clearInterval_def)
  next
    case (Reply good sid' ui')
    show ?thesis
    proof (cases good)
      case True
      then show ?thesis
        unfolding tick init_without_remembered_id [OF st]
        using assms i3 Reply
        by (cases ui')
          (auto simp: createNewSession_def Let_def fetch_def validationTick_def startPeriodicSync_def
            setInterval_def clearInterval_def adopt_def)
    next
      case False
      then show ?thesis
        unfolding tick init_without_remembered_id [OF st]
        using assms(1,2) i3 st Reply
        by (simp add: createNewSession_def Let_def fetch_def validationTick_def clearInterval_def)
    qed
  qed
qed

text \<open>
  The claim as the specification states it includes the network failure. When the poll's
  request fails, the callback only logs the error: the id is kept, the interval keeps
  running and no session is created.
\<close>

theorem validation_network_failure_keeps_session:
  "mgrSessionId (fst (validationTick Rejected Rejected Rejected (activeManager, activeBrowser))) =
     Some exampleId \<and>
   sessionStorage (snd (validationTick Rejected Rejected Rejected (activeManager, activeBrowser))) =
     Some exampleId \<and>
   intervals (snd (validationTick Rejected Rejected Rejected (activeManager, activeBrowser))) = [1] \<and>
   countCalls PostInit (snd (validationTick Rejected Rejected Rejected (activeManager, activeBrowser))) = 0"
  by (simp add: validationTick_def activeManager_def activeBrowser_def truthySessionId_def fetch_def
      countCalls_def newSessionManager_def exampleId_nonempty)

theorem validation_unsuccessful_reply_rebootstraps_witness:
  "truthySessionId activeManager = Some exampleId \<and>
   validationInterval activeManager = Some 1 \<and> 1 < nextHandle activeBrowser \<and>
   1 \<notin> set (intervals (snd (validationTick (Reply False [] None) Rejected
                               (Reply True freshId (Some defaultUiState)) (activeManager, activeBrowser)))) \<and>
   sent (snd (validationTick (Reply False [] None) Rejected
                (Reply True freshId (Some defaultUiState)) (activeManager, activeBrowser))) =
     [(0, GetSession exampleId), (0, PostInit)] \<and>
   mgrSessionId (fst (validationTick (Reply False [] None) Rejected
                (Reply True freshId (Some defaultUiState)) (activeManager, activeBrowser))) = Some freshId"
proof -
  have h1: "truthySessionId activeManager = Some exampleId"
    by (simp add: truthySessionId_def activeManager_def exampleId_nonempty)
  have h2: "validationInterval activeManager = Some 1"
    by (simp add: activeManager_def)
  have h3: "1 < nextHandle activeBrowser"
    by (simp add: activeBrowser_def)
  have s: "sent activeBrowser = []" "now activeBrowser = 0"
    by (simp_all add: activeBrowser_def)
  note c = validation_unsuccessful_reply_rebootstraps [OF h1 h2 h3, of "[]" None Rejected
      "Reply True freshId (Some defaultUiState)" freshId "Some defaultUiState"]
  show ?thesis
    using h1 h2 h3 s c [THEN conjunct2, THEN conjunct1]
      c [THEN conjunct2, THEN conjunct2, THEN conjunct1]
      c [THEN conjunct2, THEN conjunct2, THEN conjunct2, THEN conjunct1]
    by simp
qed

end
